theory Spec2Isabelle
  imports Complex_Main "HOL-Library.Char_ord" "HOL-Library.List_Lexorder"
begin


section \<open>Scalars computed by numpy and pandas\<close>

text \<open>
  Statistics and derived quantities are float64 scalars. They are modelled by exact reals
  extended with the three IEEE special values. Rounding, overflow and the sign of zero are
  not modelled in them (the rounding of a scaled mean is modelled apart, in the section on
  float64 rounding); what is modelled is that numpy arithmetic never raises: a division by
  zero yields an infinity or NaN, and every comparison with NaN is false except \<open>!=\<close>.
\<close>

datatype npfloat = Fin real | PInf | NInf | NaN

fun fneg :: "npfloat \<Rightarrow> npfloat" where
  "fneg (Fin a) = Fin (- a)"
| "fneg PInf = NInf"
| "fneg NInf = PInf"
| "fneg NaN = NaN"

fun fadd :: "npfloat \<Rightarrow> npfloat \<Rightarrow> npfloat" where
  "fadd (Fin a) (Fin b) = Fin (a + b)"
| "fadd NaN y = NaN"
| "fadd x NaN = NaN"
| "fadd PInf NInf = NaN"
| "fadd NInf PInf = NaN"
| "fadd PInf y = PInf"
| "fadd NInf y = NInf"
| "fadd (Fin a) y = y"

definition fsub :: "npfloat \<Rightarrow> npfloat \<Rightarrow> npfloat" where
  "fsub x y = fadd x (fneg y)"

definition signed_inf :: "bool \<Rightarrow> npfloat" where
  "signed_inf positive = (if positive then PInf else NInf)"

fun fmul :: "npfloat \<Rightarrow> npfloat \<Rightarrow> npfloat" where
  "fmul (Fin a) (Fin b) = Fin (a * b)"
| "fmul NaN y = NaN"
| "fmul x NaN = NaN"
| "fmul PInf (Fin b) = (if b = 0 then NaN else signed_inf (0 < b))"
| "fmul NInf (Fin b) = (if b = 0 then NaN else signed_inf (b < 0))"
| "fmul (Fin a) PInf = (if a = 0 then NaN else signed_inf (0 < a))"
| "fmul (Fin a) NInf = (if a = 0 then NaN else signed_inf (a < 0))"
| "fmul PInf PInf = PInf"
| "fmul PInf NInf = NInf"
| "fmul NInf PInf = NInf"
| "fmul NInf NInf = PInf"

fun fdiv :: "npfloat \<Rightarrow> npfloat \<Rightarrow> npfloat" where
  "fdiv (Fin a) (Fin b) =
     (if b = 0 then (if a = 0 then NaN else signed_inf (0 < a)) else Fin (a / b))"
| "fdiv NaN y = NaN"
| "fdiv x NaN = NaN"
| "fdiv (Fin a) y = Fin 0"
| "fdiv PInf (Fin b) = signed_inf (0 \<le> b)"
| "fdiv NInf (Fin b) = signed_inf (b < 0)"
| "fdiv x y = NaN"

fun fabs :: "npfloat \<Rightarrow> npfloat" where
  "fabs (Fin a) = Fin \<bar>a\<bar>"
| "fabs NaN = NaN"
| "fabs x = PInf"

fun fsqrt :: "npfloat \<Rightarrow> npfloat" where
  "fsqrt (Fin a) = (if a < 0 then NaN else Fin (sqrt a))"
| "fsqrt PInf = PInf"
| "fsqrt x = NaN"

fun flt :: "npfloat \<Rightarrow> npfloat \<Rightarrow> bool" where
  "flt (Fin a) (Fin b) = (a < b)"
| "flt NaN y = False"
| "flt x NaN = False"
| "flt x NInf = False"
| "flt PInf y = False"
| "flt x y = True"

definition fgt :: "npfloat \<Rightarrow> npfloat \<Rightarrow> bool" where
  "fgt x y = flt y x"

fun fne :: "npfloat \<Rightarrow> npfloat \<Rightarrow> bool" where
  "fne NaN y = True"
| "fne x NaN = True"
| "fne x y = (x \<noteq> y)"

fun fclip :: "real \<Rightarrow> real \<Rightarrow> npfloat \<Rightarrow> npfloat" where
  "fclip lo hi (Fin a) = Fin (min hi (max lo a))"
| "fclip lo hi PInf = Fin hi"
| "fclip lo hi NInf = Fin lo"
| "fclip lo hi NaN = NaN"

section \<open>Data frames\<close>

text \<open>
  A pandas column is a dtype together with its cells. The constructors below are the
  dtypes a frame of this program can hold: \<open>int64\<close> and \<open>bool\<close> (no missing
  values), \<open>float64\<close> (a missing value is NaN, here \<open>None\<close>; the stored values are
  taken to be finite), \<open>object\<close> and \<open>category\<close> holding strings, and
  \<open>datetime64\<close> (nanoseconds since the epoch, a missing value is NaT). A frame is the
  list of its named columns in their order; \<open>wf_frame\<close> says that the column labels are
  distinct and that all columns have the frame's row count.
\<close>

datatype dtype = Int64 | Float64 | Bool | Object | Category | Datetime64

datatype column =
    IntCol "int list"
  | FloatCol "real option list"
  | BoolCol "bool list"
  | ObjectCol "string option list"
  | CategoryCol "string option list"
  | DatetimeCol "int option list"

type_synonym dataframe = "(string \<times> column) list"

fun dtype_of :: "column \<Rightarrow> dtype" where
  "dtype_of (IntCol xs) = Int64"
| "dtype_of (FloatCol xs) = Float64"
| "dtype_of (BoolCol xs) = Bool"
| "dtype_of (ObjectCol xs) = Object"
| "dtype_of (CategoryCol xs) = Category"
| "dtype_of (DatetimeCol xs) = Datetime64"

fun col_len :: "column \<Rightarrow> nat" where
  "col_len (IntCol xs) = length xs"
| "col_len (FloatCol xs) = length xs"
| "col_len (BoolCol xs) = length xs"
| "col_len (ObjectCol xs) = length xs"
| "col_len (CategoryCol xs) = length xs"
| "col_len (DatetimeCol xs) = length xs"

fun nrows :: "dataframe \<Rightarrow> nat" where
  "nrows [] = 0"
| "nrows ((name, c) # rest) = col_len c"

definition wf_frame :: "dataframe \<Rightarrow> bool" where
  "wf_frame df = (distinct (map fst df) \<and> list_all (\<lambda>(name, c). col_len c = nrows df) df)"

text \<open>\<open>pd.api.types.is_numeric_dtype\<close>: integers, floats and booleans.\<close>

fun is_numeric_dtype :: "column \<Rightarrow> bool" where
  "is_numeric_dtype (IntCol xs) = True"
| "is_numeric_dtype (FloatCol xs) = True"
| "is_numeric_dtype (BoolCol xs) = True"
| "is_numeric_dtype c = False"

text \<open>
  \<open>select_dtypes(include=[...])\<close> keeps, in frame order, the columns whose dtype is
  in the selection; \<open>"number"\<close> selects \<open>int64\<close> and \<open>float64\<close> but not
  \<open>bool\<close>.
\<close>

definition number :: "dtype list" where
  "number = [Int64, Float64]"

definition select_dtypes :: "dtype list \<Rightarrow> dataframe \<Rightarrow> dataframe" where
  "select_dtypes include df = filter (\<lambda>(name, c). dtype_of c \<in> set include) df"

text \<open>The cells of a numeric column as floats; a boolean counts as 0 or 1.\<close>

fun num_values :: "column \<Rightarrow> real option list" where
  "num_values (IntCol xs) = map (\<lambda>i. Some (real_of_int i)) xs"
| "num_values (FloatCol xs) = xs"
| "num_values (BoolCol xs) = map (\<lambda>b. Some (if b then 1 else 0)) xs"
| "num_values c = []"

fun dropna :: "'a option list \<Rightarrow> 'a list" where
  "dropna [] = []"
| "dropna (None # xs) = dropna xs"
| "dropna (Some x # xs) = x # dropna xs"

fun isnull_any :: "column \<Rightarrow> bool" where
  "isnull_any (IntCol xs) = False"
| "isnull_any (FloatCol xs) = (None \<in> set xs)"
| "isnull_any (BoolCol xs) = False"
| "isnull_any (ObjectCol xs) = (None \<in> set xs)"
| "isnull_any (CategoryCol xs) = (None \<in> set xs)"
| "isnull_any (DatetimeCol xs) = (None \<in> set xs)"

section \<open>Series statistics\<close>

text \<open>
  The pandas reductions skip missing values; on no values they return NaN. They are
  computed here in exact arithmetic: a result is never rounded and never overflows.
  \<open>std\<close> is the sample standard deviation (\<open>ddof = 1\<close>), NaN on fewer than two
  values. \<open>quantile\<close> interpolates linearly between the two neighbours of the position
  \<open>q * (n - 1)\<close> in the sorted values.
\<close>

definition mean :: "real option list \<Rightarrow> npfloat" where
  "mean xs = (let v = dropna xs in
     if v = [] then NaN else Fin (sum_list v / real (length v)))"

definition median :: "real option list \<Rightarrow> npfloat" where
  "median xs = (let v = sort (dropna xs); n = length v in
     if n = 0 then NaN
     else if odd n then Fin (v ! (n div 2))
     else Fin ((v ! (n div 2 - 1) + v ! (n div 2)) / 2))"

definition std :: "real option list \<Rightarrow> npfloat" where
  "std xs = (let v = dropna xs; n = length v in
     if n \<le> 1 then NaN
     else let m = sum_list v / real n in
       Fin (sqrt (sum_list (map (\<lambda>x. (x - m)\<^sup>2) v) / real (n - 1))))"

definition series_min :: "real option list \<Rightarrow> npfloat" where
  "series_min xs = (case dropna xs of [] \<Rightarrow> NaN | x # v \<Rightarrow> Fin (fold min v x))"

definition series_max :: "real option list \<Rightarrow> npfloat" where
  "series_max xs = (case dropna xs of [] \<Rightarrow> NaN | x # v \<Rightarrow> Fin (fold max v x))"

definition quantile :: "real \<Rightarrow> real option list \<Rightarrow> npfloat" where
  "quantile q xs = (let v = sort (dropna xs); n = length v in
     if n = 0 then NaN
     else let pos = q * real (n - 1);
              lo = nat \<lfloor>pos\<rfloor>;
              hi = min (lo + 1) (n - 1);
              g = pos - real lo
          in Fin (v ! lo + (v ! hi - v ! lo) * g))"

text \<open>
  \<open>Series.mode()\<close>: the most frequent non-missing values, sorted ascending; empty when
  every cell is missing.
\<close>

definition mode_vals :: "('a::linorder) option list \<Rightarrow> 'a list" where
  "mode_vals xs = (let v = dropna xs; top = fold max (map (count_list v) v) 0 in
     sort (remdups (filter (\<lambda>x. count_list v x = top) v)))"

datatype scalar = Num npfloat | Str string | Timestamp int

fun mode :: "column \<Rightarrow> scalar list" where
  "mode (IntCol xs) = map (\<lambda>i. Num (Fin (real_of_int i))) (mode_vals (map Some xs))"
| "mode (FloatCol xs) = map (\<lambda>x. Num (Fin x)) (mode_vals xs)"
| "mode (BoolCol xs) = map (\<lambda>b. Num (Fin (if b then 1 else 0))) (mode_vals (map Some xs))"
| "mode (ObjectCol xs) = map Str (mode_vals xs)"
| "mode (CategoryCol xs) = map Str (mode_vals xs)"
| "mode (DatetimeCol xs) = map Timestamp (mode_vals xs)"

definition fill :: "'a \<Rightarrow> 'a option \<Rightarrow> 'a option" where
  "fill v x = (case x of None \<Rightarrow> Some v | Some y \<Rightarrow> Some y)"

text \<open>
  \<open>Series.fillna(value)\<close> replaces the missing cells by the value. Filling with NaN
  changes nothing. The last equation covers the pairings this program never makes (a
  value of another kind than the column's cells).
\<close>

fun fillna :: "column \<Rightarrow> scalar \<Rightarrow> column" where
  "fillna (FloatCol xs) (Num (Fin m)) = FloatCol (map (fill m) xs)"
| "fillna (ObjectCol xs) (Str s) = ObjectCol (map (fill s) xs)"
| "fillna (CategoryCol xs) (Str s) = CategoryCol (map (fill s) xs)"
| "fillna (DatetimeCol xs) (Timestamp t) = DatetimeCol (map (fill t) xs)"
| "fillna c v = c"

section \<open>Objects and exceptions\<close>

text \<open>
  Frames are mutable objects. The heap is the list of allocated frames and a reference is
  an index into it; \<open>df.copy()\<close> allocates a new frame with the same contents, and
  \<open>df[name] = column\<close> overwrites the named column of the frame at a reference (or
  appends it when the label is new). A raised exception is a value.
\<close>

type_synonym heap = "dataframe list"

datatype exn = KeyError string | ValueError string | ExternalFailure string

definition df_copy :: "heap \<Rightarrow> nat \<Rightarrow> heap \<times> nat" where
  "df_copy h df = (h @ [h ! df], length h)"

definition set_col :: "dataframe \<Rightarrow> string \<Rightarrow> column \<Rightarrow> dataframe" where
  "set_col df name c =
     (if name \<in> set (map fst df)
      then map (\<lambda>(n, old). if n = name then (n, c) else (n, old)) df
      else df @ [(name, c)])"

section \<open>The cleaner (cleaner.py)\<close>

text \<open>
  \<open>clean_dataframe\<close> copies the frame and walks the columns of the copy. A column with
  a missing value is filled in place: a numeric one with its median, any other with
  \<open>mode()[0]\<close>, which raises \<open>KeyError\<close> when the mode is empty. The series that
  \<open>cleaned_df[column]\<close> returns shares its data with the frame (pandas without
  copy-on-write), so \<open>fillna(..., inplace=True)\<close> on it changes the column of the copy.
  The loop returns the heap and the exception, if one was raised.
\<close>

fun clean_loop :: "heap \<Rightarrow> nat \<Rightarrow> string list \<Rightarrow> heap \<times> exn option" where
  "clean_loop h cleaned_df [] = (h, None)"
| "clean_loop h cleaned_df (column # rest) =
     (case map_of (h ! cleaned_df) column of
        None \<Rightarrow> (h, Some (KeyError column))
      | Some s \<Rightarrow>
          if isnull_any s then
            (if is_numeric_dtype s then
               let median_val = median (num_values s)
               in clean_loop
                    (h[cleaned_df := set_col (h ! cleaned_df) column (fillna s (Num median_val))])
                    cleaned_df rest
             else
               (case mode s of
                  [] \<Rightarrow> (h, Some (KeyError ''0''))
                | mode_val # others \<Rightarrow>
                    clean_loop
                      (h[cleaned_df := set_col (h ! cleaned_df) column (fillna s mode_val)])
                      cleaned_df rest))
          else clean_loop h cleaned_df rest)"

definition clean_dataframe :: "heap \<Rightarrow> nat \<Rightarrow> heap \<times> (exn + nat)" where
  "clean_dataframe h df =
     (let (h1, cleaned_df) = df_copy h df in
      case clean_loop h1 cleaned_df (map fst (h1 ! cleaned_df)) of
        (h2, None) \<Rightarrow> (h2, Inr cleaned_df)
      | (h2, Some e) \<Rightarrow> (h2, Inl e))"

section \<open>Notions used to state the cleaner's properties\<close>

text \<open>
  A column is entirely missing when it has at least one cell and every cell is missing.
  \<open>median_of\<close> is the median of a list of values (none of them missing), and
  \<open>first_mode v m\<close> says that \<open>m\<close> is the most frequent value of \<open>v\<close>, the
  least one among the values tied for the highest count.
\<close>

fun entirely_missing :: "column \<Rightarrow> bool" where
  "entirely_missing (IntCol xs) = False"
| "entirely_missing (FloatCol xs) = (xs \<noteq> [] \<and> dropna xs = [])"
| "entirely_missing (BoolCol xs) = False"
| "entirely_missing (ObjectCol xs) = (xs \<noteq> [] \<and> dropna xs = [])"
| "entirely_missing (CategoryCol xs) = (xs \<noteq> [] \<and> dropna xs = [])"
| "entirely_missing (DatetimeCol xs) = (xs \<noteq> [] \<and> dropna xs = [])"

definition median_of :: "real list \<Rightarrow> real" where
  "median_of v = (let s = sort v; n = length s in
     if odd n then s ! (n div 2) else (s ! (n div 2 - 1) + s ! (n div 2)) / 2)"

definition first_mode :: "('a::linorder) list \<Rightarrow> 'a \<Rightarrow> bool" where
  "first_mode v m =
     (m \<in> set v \<and> (\<forall>y \<in> set v. count_list v y \<le> count_list v m)
      \<and> (\<forall>y \<in> set v. count_list v y = count_list v m \<longrightarrow> m \<le> y))"

text \<open>
  The effect of one iteration of the cleaner's loop on the column it visits, and of the
  iterations for a set of labels on the frame; \<open>fillable\<close> holds when the iteration
  does not raise.
\<close>

definition imputed :: "column \<Rightarrow> column" where
  "imputed c =
     (if isnull_any c then
        (if is_numeric_dtype c then fillna c (Num (median (num_values c)))
         else (case mode c of [] \<Rightarrow> c | mode_val # others \<Rightarrow> fillna c mode_val))
      else c)"

definition fillable :: "column \<Rightarrow> bool" where
  "fillable c = (\<not> (isnull_any c \<and> \<not> is_numeric_dtype c \<and> mode c = []))"

definition impute_named :: "string set \<Rightarrow> dataframe \<Rightarrow> dataframe" where
  "impute_named names df = map (\<lambda>(n, c). (n, if n \<in> names then imputed c else c)) df"

section \<open>The profiler (profiler.py)\<close>

text \<open>
  \<open>df[name]\<close> raises \<open>KeyError\<close> for an unknown label. \<open>df[names]\<close> is the frame of
  the columns with these labels, in the order of the labels.
\<close>

definition getitem :: "dataframe \<Rightarrow> string \<Rightarrow> exn + column" where
  "getitem df name = (case map_of df name of None \<Rightarrow> Inl (KeyError name) | Some c \<Rightarrow> Inr c)"

definition subframe :: "dataframe \<Rightarrow> string list \<Rightarrow> dataframe" where
  "subframe df names = concat (map (\<lambda>name. filter (\<lambda>(n, c). n = name) df) names)"

text \<open>
  \<open>DataFrame.describe()\<close> on numeric columns: the non-missing count, mean, sample standard
  deviation, minimum, the three quartiles and the maximum of each column. It raises
  \<open>ValueError\<close> on a frame without columns.
\<close>

record describe_stats =
  d_count :: nat
  d_mean :: npfloat
  d_std :: npfloat
  d_min :: npfloat
  d_q25 :: npfloat
  d_q50 :: npfloat
  d_q75 :: npfloat
  d_max :: npfloat

definition describe_series :: "real option list \<Rightarrow> describe_stats" where
  "describe_series xs =
     \<lparr>d_count = length (dropna xs), d_mean = mean xs, d_std = std xs, d_min = series_min xs,
      d_q25 = quantile 0.25 xs, d_q50 = quantile 0.5 xs, d_q75 = quantile 0.75 xs,
      d_max = series_max xs\<rparr>"

definition describe :: "dataframe \<Rightarrow> exn + (string \<times> describe_stats) list" where
  "describe df =
     (if df = [] then Inl (ValueError ''Cannot describe a DataFrame without columns'')
      else Inr (map (\<lambda>(name, c). (name, describe_series (num_values c))) df))"

text \<open>
  The cells of a series as floats, a missing cell being NaN, so that a comparison with it
  is false.
\<close>

definition as_floats :: "real option list \<Rightarrow> npfloat list" where
  "as_floats xs = map (\<lambda>x. case x of None \<Rightarrow> NaN | Some v \<Rightarrow> Fin v) xs"

definition outlier_sum :: "real option list \<Rightarrow> nat" where
  "outlier_sum xs =
     (let Q1 = quantile 0.25 xs;
          Q3 = quantile 0.75 xs;
          IQR = fsub Q3 Q1;
          outlier_condition =
            map (\<lambda>x. flt x (fsub Q1 (fmul (Fin 1.5) IQR)) \<or> fgt x (fadd Q3 (fmul (Fin 1.5) IQR)))
              (as_floats xs)
      in length (filter (\<lambda>b. b) outlier_condition))"

fun outliers_loop :: "dataframe \<Rightarrow> string list \<Rightarrow> exn + (string \<times> nat) list" where
  "outliers_loop df [] = Inr []"
| "outliers_loop df (col # rest) =
     (case getitem df col of
        Inl e \<Rightarrow> Inl e
      | Inr s \<Rightarrow>
          (case outliers_loop df rest of
             Inl e \<Rightarrow> Inl e
           | Inr outliers_summary \<Rightarrow> Inr ((col, outlier_sum (num_values s)) # outliers_summary)))"

text \<open>
  The labels of an object or category column (the categories of a category column are
  taken to be its observed values). \<open>value_counts().to_dict()\<close> maps each non-missing value
  to its number of occurrences; \<open>nunique()\<close> counts the distinct non-missing values.
\<close>

fun labels :: "column \<Rightarrow> string option list" where
  "labels (ObjectCol xs) = xs"
| "labels (CategoryCol xs) = xs"
| "labels c = []"

definition value_counts :: "'a option list \<Rightarrow> ('a \<rightharpoonup> nat)" where
  "value_counts xs = (\<lambda>x. if x \<in> set (dropna xs) then Some (count_list (dropna xs) x) else None)"

definition nunique :: "'a option list \<Rightarrow> nat" where
  "nunique xs = length (remdups (dropna xs))"

record cat_summary =
  cs_value_counts :: "string \<rightharpoonup> nat"
  cs_unique_values_count :: nat

fun categorical_loop :: "dataframe \<Rightarrow> string list \<Rightarrow> exn + (string \<times> cat_summary) list" where
  "categorical_loop df [] = Inr []"
| "categorical_loop df (col # rest) =
     (case getitem df col of
        Inl e \<Rightarrow> Inl e
      | Inr s \<Rightarrow>
          (case categorical_loop df rest of
             Inl e \<Rightarrow> Inl e
           | Inr categorical_analysis \<Rightarrow>
               Inr ((col, \<lparr>cs_value_counts = value_counts (labels s),
                           cs_unique_values_count = nunique (labels s)\<rparr>) # categorical_analysis)))"

record full_profile =
  basic_statistics :: "(string \<times> describe_stats) list"
  outliers_count :: "(string \<times> nat) list"
  categorical_analysis :: "(string \<times> cat_summary) list"

definition profile_dataframe :: "dataframe \<Rightarrow> exn + full_profile" where
  "profile_dataframe df =
     (let numerical_cols = map fst (select_dtypes number df) in
      case describe (subframe df numerical_cols) of
        Inl e \<Rightarrow> Inl e
      | Inr stats \<Rightarrow>
          (case outliers_loop df numerical_cols of
             Inl e \<Rightarrow> Inl e
           | Inr outliers_summary \<Rightarrow>
               (let categorical_cols = map fst (select_dtypes [Object, Category] df) in
                case categorical_loop df categorical_cols of
                  Inl e \<Rightarrow> Inl e
                | Inr cat_analysis \<Rightarrow>
                    Inr \<lparr>basic_statistics = stats, outliers_count = outliers_summary,
                         categorical_analysis = cat_analysis\<rparr>)))"

text \<open>The column labels in the three parts of a profile.\<close>

definition profiled_columns :: "full_profile \<Rightarrow> string list \<times> string list \<times> string list" where
  "profiled_columns p =
     (map fst (basic_statistics p), map fst (outliers_count p), map fst (categorical_analysis p))"

text \<open>
  The outlier rule in the specification's words: with the quartiles interpolated linearly
  on the sorted non-missing values, the number of non-missing values strictly below
  \<open>Q1 - 1.5 IQR\<close> or strictly above \<open>Q3 + 1.5 IQR\<close>.
\<close>

definition interpolated_quantile :: "real \<Rightarrow> real list \<Rightarrow> real" where
  "interpolated_quantile q s =
     (let h = q * (real (length s) - 1) in
      s ! nat \<lfloor>h\<rfloor> + (h - real_of_int \<lfloor>h\<rfloor>) * (s ! nat \<lceil>h\<rceil> - s ! nat \<lfloor>h\<rfloor>))"

definition iqr_outlier_count :: "real option list \<Rightarrow> nat" where
  "iqr_outlier_count xs =
     (let v = dropna xs;
          q1 = interpolated_quantile 0.25 (sort v);
          q3 = interpolated_quantile 0.75 (sort v);
          iqr = q3 - q1
      in length (filter (\<lambda>x. x < q1 - 1.5 * iqr \<or> x > q3 + 1.5 * iqr) v))"

section \<open>The what-if scenario (orchestrator.py)\<close>

text \<open>
  \<open>Series.corr\<close> keeps the rows where both cells are present, returns NaN when none is
  left, and otherwise computes the Pearson coefficient as numpy does: the covariance and
  the two variances with divisor \<open>n - 1\<close>, the covariance divided by both standard
  deviations, the result clipped to \<open>[-1, 1]\<close>. A constant column, or a single row, gives
  \<open>0 / 0\<close>, which is NaN.
\<close>

fun valid_pairs :: "real option list \<Rightarrow> real option list \<Rightarrow> (real \<times> real) list" where
  "valid_pairs (Some x # xs) (Some y # ys) = (x, y) # valid_pairs xs ys"
| "valid_pairs (x # xs) (y # ys) = valid_pairs xs ys"
| "valid_pairs xs ys = []"

definition corr :: "real option list \<Rightarrow> real option list \<Rightarrow> npfloat" where
  "corr a b =
     (let ps = valid_pairs a b; n = length ps in
      if n = 0 then NaN
      else
        let mx = sum_list (map fst ps) / real n;
            my = sum_list (map snd ps) / real n;
            fact = Fin (real n - 1);
            cxy = fdiv (Fin (sum_list (map (\<lambda>(x, y). (x - mx) * (y - my)) ps))) fact;
            cxx = fdiv (Fin (sum_list (map (\<lambda>(x, y). (x - mx)\<^sup>2) ps))) fact;
            cyy = fdiv (Fin (sum_list (map (\<lambda>(x, y). (y - my)\<^sup>2) ps))) fact
        in fclip (- 1) 1 (fdiv (fdiv cxy (fsqrt cxx)) (fsqrt cyy)))"

text \<open>
  The request is the dictionary with the keys \<open>column\<close>, \<open>change_type\<close> and \<open>value\<close>;
  the value is a number. The function returns a string: one of four error messages, or
  the report. The messages are modelled by constructors carrying what the message
  interpolates, and the report by a record of the quantities it prints, the impact lines
  in the order they are printed.
\<close>

record modifications =
  m_column :: string
  m_change_type :: string
  m_value :: real

record stats =
  s_mean :: npfloat
  s_median :: npfloat
  s_std :: npfloat
  s_min :: npfloat
  s_max :: npfloat

record impact =
  i_correlation :: npfloat
  i_estimated_impact :: npfloat

datatype change_description =
    Increased string real
  | Decreased string real
  | SetTo string real

record what_if_report =
  r_description :: change_description
  r_column :: string
  r_original_stats :: stats
  r_new_stats :: stats
  r_stats_changes :: stats
  r_impact_analysis :: "(string \<times> impact) list"
  r_scenario_report :: string

datatype what_if_result =
    ColumnNotFound string
  | ColumnNotNumerical string
  | UnknownChangeType string
  | ErrorDuringAnalysis exn
  | Report what_if_report

fun report_of :: "what_if_result \<Rightarrow> what_if_report option" where
  "report_of (Report r) = Some r"
| "report_of x = None"

definition series_stats :: "column \<Rightarrow> stats" where
  "series_stats s =
     \<lparr>s_mean = mean (num_values s), s_median = median (num_values s), s_std = std (num_values s),
      s_min = series_min (num_values s), s_max = series_max (num_values s)\<rparr>"

text \<open>Multiplying a numeric series by a float gives a float series; missing stays missing.\<close>

definition series_mul :: "column \<Rightarrow> real \<Rightarrow> column" where
  "series_mul s k = FloatCol (map (map_option (\<lambda>x. x * k)) (num_values s))"

text \<open>Assigning a scalar to a column sets every row of the frame to it.\<close>

definition broadcast :: "dataframe \<Rightarrow> real \<Rightarrow> column" where
  "broadcast df v = FloatCol (replicate (nrows df) (Some v))"

text \<open>Lines 98 to 105: the percentage change of one statistic.\<close>

definition percentage_change :: "npfloat \<Rightarrow> npfloat \<Rightarrow> npfloat" where
  "percentage_change new old =
     (if fne old (Fin 0) then fmul (fdiv (fsub new old) (fabs old)) (Fin 100) else Fin 0)"

definition stats_changes :: "stats \<Rightarrow> stats \<Rightarrow> stats" where
  "stats_changes original_stats new_stats =
     \<lparr>s_mean = percentage_change (s_mean new_stats) (s_mean original_stats),
      s_median = percentage_change (s_median new_stats) (s_median original_stats),
      s_std = percentage_change (s_std new_stats) (s_std original_stats),
      s_min = percentage_change (s_min new_stats) (s_min original_stats),
      s_max = percentage_change (s_max new_stats) (s_max original_stats)\<rparr>"

text \<open>Lines 119 to 125: the estimated impact on a correlated column.\<close>

definition estimate_impact :: "string \<Rightarrow> real \<Rightarrow> stats \<Rightarrow> npfloat \<Rightarrow> npfloat" where
  "estimate_impact change_type val original_stats correlation =
     (if change_type \<in> {''Percentage Increase'', ''Percentage Decrease''}
      then fmul (fmul correlation (Fin val))
             (Fin (if change_type = ''Percentage Increase'' then 1 else - 1))
      else
        let percentage_change =
              fmul (fdiv (fsub (Fin val) (s_mean original_stats)) (s_mean original_stats)) (Fin 100)
        in fmul correlation percentage_change)"

text \<open>Lines 113 to 130: the loop over the numeric columns of the modified frame.\<close>

fun impact_loop ::
  "dataframe \<Rightarrow> string \<Rightarrow> string \<Rightarrow> real \<Rightarrow> stats \<Rightarrow> string list
   \<Rightarrow> exn + (string \<times> impact) list" where
  "impact_loop original_df col change_type val original_stats [] = Inr []"
| "impact_loop original_df col change_type val original_stats (other_col # rest) =
     (if other_col \<noteq> col then
        (case getitem original_df col of
           Inl e \<Rightarrow> Inl e
         | Inr target \<Rightarrow>
             (case getitem original_df other_col of
                Inl e \<Rightarrow> Inl e
              | Inr other \<Rightarrow>
                  (let correlation = corr (num_values target) (num_values other) in
                   case impact_loop original_df col change_type val original_stats rest of
                     Inl e \<Rightarrow> Inl e
                   | Inr impact_analysis \<Rightarrow>
                       if fgt (fabs correlation) (Fin 0.1)
                       then Inr ((other_col,
                                  \<lparr>i_correlation = correlation,
                                   i_estimated_impact =
                                     estimate_impact change_type val original_stats correlation\<rparr>)
                                 # impact_analysis)
                       else Inr impact_analysis)))
      else impact_loop original_df col change_type val original_stats rest)"

text \<open>
  The state of a run: the heap of frames and the requests sent so far to the external
  text generator. The generator is a parameter: given the profile it answers with text or
  fails.
\<close>

record world =
  heap :: heap
  analyzer_calls :: "full_profile list"

type_synonym analyzer = "full_profile \<Rightarrow> exn + string"

text \<open>Lines 74 to 85: the modified column and its description, or no known change type.\<close>

definition apply_change ::
  "dataframe \<Rightarrow> string \<Rightarrow> string \<Rightarrow> real \<Rightarrow> column \<Rightarrow> (column \<times> change_description) option" where
  "apply_change modified_df col change_type val s =
     (if change_type = ''Percentage Increase''
      then Some (series_mul s (1 + val / 100), Increased col val)
      else if change_type = ''Percentage Decrease''
      then Some (series_mul s (1 - val / 100), Decreased col val)
      else if change_type = ''Set to Value''
      then Some (broadcast modified_df val, SetTo col val)
      else None)"

text \<open>
  Lines 65 to 183, after the two validations: the body of the \<open>try\<close> block, where an
  exception is the left summand.
\<close>

definition what_if_body ::
  "analyzer \<Rightarrow> world \<Rightarrow> nat \<Rightarrow> nat \<Rightarrow> modifications \<Rightarrow> world \<times> (exn + what_if_result)" where
  "what_if_body invoke w modified_df original_df m =
     (let col = m_column m; change_type = m_change_type m; val = m_value m; h = heap w in
      case getitem (h ! original_df) col of
        Inl e \<Rightarrow> (w, Inl e)
      | Inr original \<Rightarrow>
     (let original_stats = series_stats original in
      case getitem (h ! modified_df) col of
        Inl e \<Rightarrow> (w, Inl e)
      | Inr s \<Rightarrow>
     (case apply_change (h ! modified_df) col change_type val s of
        None \<Rightarrow> (w, Inr (UnknownChangeType change_type))
      | Some (new_column, description) \<Rightarrow>
     (let h' = h[modified_df := set_col (h ! modified_df) col new_column];
          w' = w\<lparr>heap := h'\<rparr> in
      case getitem (h' ! modified_df) col of
        Inl e \<Rightarrow> (w', Inl e)
      | Inr modified \<Rightarrow>
     (let new_stats = series_stats modified;
          changes = stats_changes original_stats new_stats;
          numerical_cols = map fst (select_dtypes number (h' ! modified_df)) in
      case impact_loop (h' ! original_df) col change_type val original_stats numerical_cols of
        Inl e \<Rightarrow> (w', Inl e)
      | Inr impact_analysis \<Rightarrow>
     (case profile_dataframe (h' ! modified_df) of
        Inl e \<Rightarrow> (w', Inl e)
      | Inr stats_json \<Rightarrow>
     (let w'' = w'\<lparr>analyzer_calls := analyzer_calls w' @ [stats_json]\<rparr> in
      case invoke stats_json of
        Inl e \<Rightarrow> (w'', Inl e)
      | Inr scenario_report \<Rightarrow>
          (w'', Inr (Report
             \<lparr>r_description = description, r_column = col,
              r_original_stats = original_stats, r_new_stats = new_stats,
              r_stats_changes = changes, r_impact_analysis = impact_analysis,
              r_scenario_report = scenario_report\<rparr>)))))))))"

text \<open>
  \<open>run_what_if_scenario\<close>: the two copies, the two validations, the body, and the handler
  that turns any exception into the message "Error during what-if analysis".
\<close>

definition run_what_if_scenario ::
  "analyzer \<Rightarrow> world \<Rightarrow> nat \<Rightarrow> modifications \<Rightarrow> world \<times> what_if_result" where
  "run_what_if_scenario invoke w df m =
     (let (h1, modified_df) = df_copy (heap w) df;
          (h2, original_df) = df_copy h1 df;
          w2 = w\<lparr>heap := h2\<rparr>;
          col = m_column m
      in if col \<notin> set (map fst (h2 ! modified_df)) then (w2, ColumnNotFound col)
         else
           (case getitem (h2 ! modified_df) col of
              Inl e \<Rightarrow> (w2, ErrorDuringAnalysis e)
            | Inr s \<Rightarrow>
                if \<not> is_numeric_dtype s then (w2, ColumnNotNumerical col)
                else
                  (case what_if_body invoke w2 modified_df original_df m of
                     (w3, Inl e) \<Rightarrow> (w3, ErrorDuringAnalysis e)
                   | (w3, Inr result) \<Rightarrow> (w3, result))))"

text \<open>
  The presentation contract of the specification: the impact tuples in descending order
  of absolute correlation, that is, no tuple is followed by one of strictly greater
  absolute correlation.
\<close>

definition descending_abs_correlation :: "(string \<times> impact) list \<Rightarrow> bool" where
  "descending_abs_correlation xs =
     sorted_wrt (\<lambda>a b. \<not> flt (fabs (i_correlation (snd a))) (fabs (i_correlation (snd b)))) xs"


section \<open>Closed forms used in the proofs\<close>

text \<open>The profile that \<open>profile_dataframe\<close> returns on a frame with distinct labels.\<close>

definition profile_record :: "dataframe \<Rightarrow> full_profile" where
  "profile_record df =
     \<lparr>basic_statistics =
        map (\<lambda>(name, c). (name, describe_series (num_values c))) (select_dtypes number df),
      outliers_count =
        map (\<lambda>(name, c). (name, outlier_sum (num_values c))) (select_dtypes number df),
      categorical_analysis =
        map (\<lambda>(name, c). (name, \<lparr>cs_value_counts = value_counts (labels c),
                                   cs_unique_values_count = nunique (labels c)\<rparr>))
          (select_dtypes [Object, Category] df)\<rparr>"

text \<open>
  The impact line of one column, the materiality test of line 118, and the report that
  \<open>run_what_if_scenario\<close> returns on a valid request when the text generator answers.
\<close>

definition impact_of :: "string \<Rightarrow> real \<Rightarrow> column \<Rightarrow> column \<Rightarrow> impact" where
  "impact_of change_type val target other =
     \<lparr>i_correlation = corr (num_values target) (num_values other),
      i_estimated_impact =
        estimate_impact change_type val (series_stats target)
          (corr (num_values target) (num_values other))\<rparr>"

definition material :: "column \<Rightarrow> column \<Rightarrow> bool" where
  "material target other = fgt (fabs (corr (num_values target) (num_values other))) (Fin 0.1)"

definition expected_impacts ::
  "dataframe \<Rightarrow> string \<Rightarrow> string \<Rightarrow> real \<Rightarrow> column \<Rightarrow> (string \<times> impact) list" where
  "expected_impacts df col change_type val target =
     map (\<lambda>(n, c). (n, impact_of change_type val target c))
       (filter (\<lambda>(n, c). n \<noteq> col \<and> material target c) (select_dtypes number df))"

definition expected_report ::
  "dataframe \<Rightarrow> modifications \<Rightarrow> column \<Rightarrow> column \<Rightarrow> change_description \<Rightarrow> string
   \<Rightarrow> what_if_report" where
  "expected_report df m target new_column description text =
     \<lparr>r_description = description, r_column = m_column m,
      r_original_stats = series_stats target, r_new_stats = series_stats new_column,
      r_stats_changes = stats_changes (series_stats target) (series_stats new_column),
      r_impact_analysis = expected_impacts df (m_column m) (m_change_type m) (m_value m) target,
      r_scenario_report = text\<rparr>"

section \<open>float64 rounding of a scaled mean\<close>








section \<open>Example frames\<close>

definition people_frame :: dataframe where
  "people_frame = [(''age'', FloatCol [Some 1, None, Some 3]),
                   (''city'', ObjectCol [Some ''b'', None, Some ''a''])]"

definition blank_numeric_frame :: dataframe where
  "blank_numeric_frame = [(''x'', FloatCol [None, None]), (''s'', ObjectCol [Some ''a'', None])]"

definition blank_frame :: dataframe where
  "blank_frame = [(''x'', FloatCol [None]), (''s'', ObjectCol [None])]"

definition staff_frame :: dataframe where
  "staff_frame = [(''salary'', FloatCol [Some 1, Some 2]), (''hired'', DatetimeCol [Some 0, None]),
                  (''active'', BoolCol [True, False]), (''city'', ObjectCol [Some ''a'', Some ''b''])]"

definition salary_frame :: dataframe where
  "salary_frame = [(''salary'', IntCol [30000, 32000, 31000, 1000000, 33000])]"

definition order_frame :: dataframe where
  "order_frame = [(''a'', FloatCol [Some 1, Some 2, Some 3]), (''b'', IntCol [1, 3, 2]),
                  (''c'', FloatCol [Some 2, Some 3, Some 4]),
                  (''s'', ObjectCol [Some ''x'', None, Some ''y''])]"

definition zero_mean_frame :: dataframe where
  "zero_mean_frame = [(''a'', FloatCol [Some (- 1), Some 0, Some 1]),
                      (''b'', FloatCol [Some 1, Some 2, Some 3])]"


definition start :: "dataframe \<Rightarrow> world" where
  "start df = \<lparr>heap = [df], analyzer_calls = []\<rparr>"

definition request :: "string \<Rightarrow> string \<Rightarrow> real \<Rightarrow> modifications" where
  "request col change_type val = \<lparr>m_column = col, m_change_type = change_type, m_value = val\<rparr>"

definition answers :: analyzer where
  "answers p = Inr ''narrative''"

definition times_out :: analyzer where
  "times_out p = Inl (ExternalFailure ''timeout'')"

section \<open>Properties of the cleaner\<close>

lemma fill_neq_None: "fill m x \<noteq> None" "None \<noteq> fill m x"
  by (cases x; simp add: fill_def)+

lemma sort_Nil_iff: "sort xs = [] \<longleftrightarrow> xs = []"
  by (metis length_sort length_0_conv)

lemma median_dropna: "dropna xs \<noteq> [] \<Longrightarrow> median xs = Fin (median_of (dropna xs))"
  by (simp add: median_def median_of_def Let_def sort_Nil_iff)

lemma median_all_missing: "dropna xs = [] \<Longrightarrow> median xs = NaN"
  by (simp add: median_def)

lemma fold_max_ge_init: "(a::nat) \<le> fold max ys a"
  by (induction ys arbitrary: a) (auto intro: order_trans[OF max.cobounded2])

lemma fold_max_ge: "x \<in> set ys \<Longrightarrow> x \<le> fold max ys (a::nat)"
proof (induction ys arbitrary: a)
  case Nil
  then show ?case by simp
next
  case (Cons y ys)
  show ?case
  proof (cases "x = y")
    case True
    have "y \<le> max y a" by simp
    also have "\<dots> \<le> fold max ys (max y a)" by (rule fold_max_ge_init)
    finally show ?thesis using True by simp
  next
    case False
    with Cons show ?thesis by simp
  qed
qed

lemma fold_max_mem: "fold max ys (a::nat) = a \<or> fold max ys a \<in> set ys"
proof (induction ys arbitrary: a)
  case Nil
  then show ?case by simp
next
  case (Cons y ys)
  from Cons[of "max y a"] show ?case by (auto simp: max_def split: if_splits)
qed

lemma top_count_attained:
  assumes "v \<noteq> []"
  shows "\<exists>x \<in> set v. count_list v x = fold max (map (count_list v) v) 0"
proof -
  let ?top = "fold max (map (count_list v) v) 0"
  from assms obtain x where x: "x \<in> set v" by (cases v) auto
  then have "0 < count_list v x" by (metis count_list_0_iff gr0I)
  moreover have "count_list v x \<le> ?top" using x by (intro fold_max_ge) simp
  ultimately have "?top \<noteq> 0" by simp
  with fold_max_mem[of "map (count_list v) v" 0] have "?top \<in> set (map (count_list v) v)"
    by auto
  then show ?thesis by auto
qed

lemma mode_vals_first_mode:
  assumes "dropna xs \<noteq> []"
  shows "\<exists>m others. mode_vals xs = m # others \<and> first_mode (dropna xs) m"
proof -
  let ?v = "dropna xs"
  let ?top = "fold max (map (count_list ?v) ?v) 0"
  let ?c = "filter (\<lambda>x. count_list ?v x = ?top) ?v"
  have mv: "mode_vals xs = sort (remdups ?c)" by (simp add: mode_vals_def Let_def)
  from top_count_attained[OF assms] have "set ?c \<noteq> {}" by auto
  then have "sort (remdups ?c) \<noteq> []" by (metis set_empty set_remdups set_sort)
  then obtain m others where mo: "sort (remdups ?c) = m # others" by (cases "sort (remdups ?c)") auto
  have setc: "set (m # others) = set ?c" by (metis mo set_remdups set_sort)
  have srt: "sorted (m # others)" by (metis mo sorted_sort)
  have m_in: "m \<in> set ?c" using setc by auto
  then have m1: "m \<in> set ?v" and m2: "count_list ?v m = ?top" by auto
  have le: "\<forall>y \<in> set ?v. count_list ?v y \<le> ?top" by (auto intro: fold_max_ge)
  have least: "\<forall>y \<in> set ?v. count_list ?v y = ?top \<longrightarrow> m \<le> y"
  proof (intro ballI impI)
    fix y assume "y \<in> set ?v" "count_list ?v y = ?top"
    then have "y \<in> set (m # others)" using setc by auto
    with srt show "m \<le> y" by auto
  qed
  show ?thesis using mv mo m1 m2 le least by (auto simp: first_mode_def)
qed

lemma map_fst_impute_named: "map fst (impute_named names df) = map fst df"
  by (induction df) (auto simp: impute_named_def)

lemma map_of_impute_named:
  "map_of (impute_named names df) n =
     map_option (\<lambda>c. if n \<in> names then imputed c else c) (map_of df n)"
  by (induction df) (auto simp: impute_named_def)

lemma impute_named_empty: "impute_named {} df = df"
  by (induction df) (auto simp: impute_named_def)

lemma impute_named_insert:
  "column \<notin> names \<Longrightarrow>
   impute_named names (impute_named {column} df) = impute_named (insert column names) df"
  by (induction df) (auto simp: impute_named_def)

lemma set_col_impute:
  assumes "distinct (map fst df)" "map_of df column = Some s"
  shows "set_col df column (imputed s) = impute_named {column} df"
proof -
  have mem: "column \<in> set (map fst df)" using assms(2) by (metis map_of_eq_None_iff option.distinct(1) set_map)
  have "\<And>n c. (n, c) \<in> set df \<Longrightarrow> n = column \<Longrightarrow> c = s"
    using assms by (metis map_of_eq_Some_iff option.inject)
  then have "map (\<lambda>(n, old). if n = column then (n, imputed s) else (n, old)) df
      = map (\<lambda>(n, c). (n, if n \<in> {column} then imputed c else c)) df"
    by (intro map_cong) auto
  then show ?thesis using mem by (simp add: set_col_def impute_named_def)
qed

lemma clean_loop_step:
  assumes "distinct (map fst (h ! cleaned))" "map_of (h ! cleaned) column = Some s" "fillable s"
  shows "clean_loop h cleaned (column # rest) =
     clean_loop (h[cleaned := impute_named {column} (h ! cleaned)]) cleaned rest"
proof (cases "isnull_any s")
  case False
  then have "imputed s = s" by (simp add: imputed_def)
  with set_col_impute[OF assms(1,2)] have "impute_named {column} (h ! cleaned) = set_col (h ! cleaned) column s"
    by simp
  also have "\<dots> = h ! cleaned"
  proof -
    have mem: "column \<in> set (map fst (h ! cleaned))"
      using assms(2) by (metis map_of_eq_None_iff option.distinct(1) set_map)
    have "\<And>n c. (n, c) \<in> set (h ! cleaned) \<Longrightarrow> n = column \<Longrightarrow> c = s"
      using assms(1,2) by (metis map_of_eq_Some_iff option.inject)
    then have "map (\<lambda>(n, old). if n = column then (n, s) else (n, old)) (h ! cleaned) = map (\<lambda>x. x) (h ! cleaned)"
      by (intro map_cong) auto
    then show ?thesis using mem by (simp add: set_col_def)
  qed
  finally show ?thesis using False assms(2) by simp
next
  case True
  show ?thesis
  proof (cases "is_numeric_dtype s")
    case num: True
    then have "imputed s = fillna s (Num (median (num_values s)))"
      using True by (simp add: imputed_def)
    with set_col_impute[OF assms(1,2)] show ?thesis using True num assms(2) by (simp add: Let_def)
  next
    case nonnum: False
    with True assms(3) obtain m others where mo: "mode s = m # others"
      by (cases "mode s") (auto simp: fillable_def)
    then have "imputed s = fillna s m" using True nonnum by (simp add: imputed_def)
    with set_col_impute[OF assms(1,2)] show ?thesis using True nonnum assms(2) mo by simp
  qed
qed

lemma clean_loop_result:
  assumes "cleaned < length h" "distinct (map fst (h ! cleaned))" "distinct names"
    "set names \<subseteq> set (map fst (h ! cleaned))"
    "\<forall>n c. n \<in> set names \<longrightarrow> map_of (h ! cleaned) n = Some c \<longrightarrow> fillable c"
  shows "clean_loop h cleaned names = (h[cleaned := impute_named (set names) (h ! cleaned)], None)"
  using assms
proof (induction names arbitrary: h)
  case Nil
  then show ?case by (simp add: impute_named_empty)
next
  case (Cons column rest)
  let ?frame = "h ! cleaned"
  let ?h1 = "h[cleaned := impute_named {column} ?frame]"
  from Cons.prems(4) obtain s where s: "map_of ?frame column = Some s"
    by (metis list.set_intros(1) map_of_eq_None_iff not_None_eq set_map subsetD)
  with Cons.prems(5) have fs: "fillable s" by simp
  have step: "clean_loop h cleaned (column # rest) = clean_loop ?h1 cleaned rest"
    by (rule clean_loop_step[OF Cons.prems(2) s fs])
  have nth1: "?h1 ! cleaned = impute_named {column} ?frame" using Cons.prems(1) by simp
  have notin: "column \<notin> set rest" using Cons.prems(3) by simp
  have "clean_loop ?h1 cleaned rest = (?h1[cleaned := impute_named (set rest) (?h1 ! cleaned)], None)"
  proof (rule Cons.IH)
    show "cleaned < length ?h1" using Cons.prems(1) by simp
    show "distinct (map fst (?h1 ! cleaned))" using Cons.prems(2) nth1 by (simp add: map_fst_impute_named)
    show "distinct rest" using Cons.prems(3) by simp
    show "set rest \<subseteq> set (map fst (?h1 ! cleaned))"
      using Cons.prems(4) nth1 by (simp add: map_fst_impute_named)
    show "\<forall>n c. n \<in> set rest \<longrightarrow> map_of (?h1 ! cleaned) n = Some c \<longrightarrow> fillable c"
    proof (intro allI impI)
      fix n c assume n: "n \<in> set rest" and "map_of (?h1 ! cleaned) n = Some c"
      moreover from n notin have "n \<noteq> column" by auto
      ultimately have "map_of ?frame n = Some c" by (simp add: nth1 map_of_impute_named)
      with n Cons.prems(5) show "fillable c" by simp
    qed
  qed
  also have "?h1[cleaned := impute_named (set rest) (?h1 ! cleaned)]
      = h[cleaned := impute_named (set (column # rest)) ?frame]"
    using notin by (simp add: nth1 impute_named_insert)
  finally show ?case using step by simp
qed

lemma impute_named_all: "impute_named (fst ` set df) df = map (\<lambda>(n, c). (n, imputed c)) df"
proof -
  have "\<And>n c. (n, c) \<in> set df \<Longrightarrow> n \<in> fst ` set df" by force
  then show ?thesis unfolding impute_named_def by (intro map_cong) auto
qed

lemma clean_dataframe_result:
  assumes "df < length h" "distinct (map fst (h ! df))"
    "\<forall>(n, c) \<in> set (h ! df). fillable c"
  shows "clean_dataframe h df = (h @ [map (\<lambda>(n, c). (n, imputed c)) (h ! df)], Inr (length h))"
proof -
  let ?h1 = "h @ [h ! df]"
  have nth: "?h1 ! length h = h ! df" by simp
  have "clean_loop ?h1 (length h) (map fst (?h1 ! length h))
      = (?h1[length h := impute_named (set (map fst (?h1 ! length h))) (?h1 ! length h)], None)"
  proof (rule clean_loop_result)
    show "length h < length ?h1" by simp
    show "distinct (map fst (?h1 ! length h))" using assms(2) by simp
    then show "distinct (map fst (?h1 ! length h))" .
    show "set (map fst (?h1 ! length h)) \<subseteq> set (map fst (?h1 ! length h))" by simp
    show "\<forall>n c. n \<in> set (map fst (?h1 ! length h)) \<longrightarrow> map_of (?h1 ! length h) n = Some c \<longrightarrow> fillable c"
      using assms(3) by (auto simp: nth dest: map_of_SomeD)
  qed
  then show ?thesis
    by (simp add: clean_dataframe_def df_copy_def impute_named_all)
qed

lemma imputed_unchanged: "\<not> isnull_any c \<Longrightarrow> imputed c = c"
  by (simp add: imputed_def)

lemma imputed_FloatCol:
  "None \<in> set xs \<Longrightarrow> dropna xs \<noteq> [] \<Longrightarrow>
   imputed (FloatCol xs) = FloatCol (map (fill (median_of (dropna xs))) xs)"
  by (simp add: imputed_def median_dropna)

lemma imputed_FloatCol_all_missing:
  "dropna xs = [] \<Longrightarrow> imputed (FloatCol xs) = FloatCol xs"
  by (simp add: imputed_def median_all_missing)

lemma imputed_ObjectCol:
  assumes "None \<in> set xs" "dropna xs \<noteq> []"
  shows "\<exists>m. first_mode (dropna xs) m \<and> imputed (ObjectCol xs) = ObjectCol (map (fill m) xs)"
  using mode_vals_first_mode[OF assms(2)] assms(1) by (auto simp: imputed_def)

lemma imputed_CategoryCol:
  assumes "None \<in> set xs" "dropna xs \<noteq> []"
  shows "\<exists>m. first_mode (dropna xs) m \<and> imputed (CategoryCol xs) = CategoryCol (map (fill m) xs)"
  using mode_vals_first_mode[OF assms(2)] assms(1) by (auto simp: imputed_def)

lemma imputed_DatetimeCol:
  assumes "None \<in> set xs" "dropna xs \<noteq> []"
  shows "\<exists>m. first_mode (dropna xs) m \<and> imputed (DatetimeCol xs) = DatetimeCol (map (fill m) xs)"
  using mode_vals_first_mode[OF assms(2)] assms(1) by (auto simp: imputed_def)

lemma not_entirely_missing_fillable: "\<not> entirely_missing c \<Longrightarrow> fillable c"
proof (cases c)
  case (ObjectCol xs)
  assume "\<not> entirely_missing c"
  with ObjectCol mode_vals_first_mode[of xs] show ?thesis by (auto simp: fillable_def)
next
  case (CategoryCol xs)
  assume "\<not> entirely_missing c"
  with CategoryCol mode_vals_first_mode[of xs] show ?thesis by (auto simp: fillable_def)
next
  case (DatetimeCol xs)
  assume "\<not> entirely_missing c"
  with DatetimeCol mode_vals_first_mode[of xs] show ?thesis by (auto simp: fillable_def)
qed (simp_all add: fillable_def)

lemma numeric_fillable: "is_numeric_dtype c \<Longrightarrow> fillable c"
  by (simp add: fillable_def)

lemma imputed_no_null: "\<not> entirely_missing c \<Longrightarrow> \<not> isnull_any (imputed c)"
proof (cases c)
  case (FloatCol xs)
  assume "\<not> entirely_missing c"
  with FloatCol show ?thesis
    by (cases "None \<in> set xs") (auto simp: imputed_FloatCol imputed_unchanged fill_neq_None)
next
  case (ObjectCol xs)
  assume "\<not> entirely_missing c"
  with ObjectCol imputed_ObjectCol[of xs] show ?thesis
    by (cases "None \<in> set xs") (auto simp: imputed_unchanged fill_neq_None)
next
  case (CategoryCol xs)
  assume "\<not> entirely_missing c"
  with CategoryCol imputed_CategoryCol[of xs] show ?thesis
    by (cases "None \<in> set xs") (auto simp: imputed_unchanged fill_neq_None)
next
  case (DatetimeCol xs)
  assume "\<not> entirely_missing c"
  with DatetimeCol imputed_DatetimeCol[of xs] show ?thesis
    by (cases "None \<in> set xs") (auto simp: imputed_unchanged fill_neq_None)
qed (simp_all add: imputed_def)

lemma map_of_imputed:
  "distinct (map fst df) \<Longrightarrow> (n, c) \<in> set df \<Longrightarrow>
   map_of (map (\<lambda>(n, c). (n, imputed c)) df) n = Some (imputed c)"
  by (induction df) (auto intro: rev_image_eqI)

text \<open>
  Claim C7. For a frame in which no column is entirely missing, \<open>clean_dataframe\<close>
  returns a new frame (a fresh reference) and leaves every frame already on the heap, the
  input among them, as it was. The new frame has the same column labels, no missing value,
  each float column's missing cells replaced by the median of its non-missing values, each
  object, category and datetime column's missing cells replaced by its most frequent value
  (the first mode on ties), and every column without a missing value unchanged. Integer and
  boolean columns hold no missing values.
\<close>

theorem clean_dataframe_imputes:
  assumes "df < length h" and "wf_frame (h ! df)"
    and "\<forall>(name, c) \<in> set (h ! df). \<not> entirely_missing c"
  shows "\<exists>h'. clean_dataframe h df = (h', Inr (length h))
     \<and> length h' = Suc (length h) \<and> (\<forall>i < length h. h' ! i = h ! i)
     \<and> map fst (h' ! length h) = map fst (h ! df)
     \<and> (\<forall>(name, c') \<in> set (h' ! length h). \<not> isnull_any c')
     \<and> (\<forall>name xs. (name, FloatCol xs) \<in> set (h ! df) \<longrightarrow> None \<in> set xs \<longrightarrow>
           map_of (h' ! length h) name = Some (FloatCol (map (fill (median_of (dropna xs))) xs)))
     \<and> (\<forall>name xs. (name, ObjectCol xs) \<in> set (h ! df) \<longrightarrow> None \<in> set xs \<longrightarrow>
           (\<exists>m. first_mode (dropna xs) m
              \<and> map_of (h' ! length h) name = Some (ObjectCol (map (fill m) xs))))
     \<and> (\<forall>name xs. (name, CategoryCol xs) \<in> set (h ! df) \<longrightarrow> None \<in> set xs \<longrightarrow>
           (\<exists>m. first_mode (dropna xs) m
              \<and> map_of (h' ! length h) name = Some (CategoryCol (map (fill m) xs))))
     \<and> (\<forall>name xs. (name, DatetimeCol xs) \<in> set (h ! df) \<longrightarrow> None \<in> set xs \<longrightarrow>
           (\<exists>m. first_mode (dropna xs) m
              \<and> map_of (h' ! length h) name = Some (DatetimeCol (map (fill m) xs))))
     \<and> (\<forall>name c. (name, c) \<in> set (h ! df) \<longrightarrow> \<not> isnull_any c \<longrightarrow>
           map_of (h' ! length h) name = Some c)"
proof -
  let ?out = "map (\<lambda>(n, c). (n, imputed c)) (h ! df)"
  let ?h' = "h @ [?out]"
  have dist: "distinct (map fst (h ! df))" using assms(2) by (simp add: wf_frame_def)
  have nem: "\<And>n c. (n, c) \<in> set (h ! df) \<Longrightarrow> \<not> entirely_missing c" using assms(3) by auto
  have "\<forall>(n, c) \<in> set (h ! df). fillable c"
    using nem by (auto intro: not_entirely_missing_fillable)
  from clean_dataframe_result[OF assms(1) dist this]
  have res: "clean_dataframe h df = (?h', Inr (length h))" .
  have out: "?h' ! length h = ?out" by simp
  have lookup: "\<And>n c. (n, c) \<in> set (h ! df) \<Longrightarrow> map_of ?out n = Some (imputed c)"
    using dist by (rule map_of_imputed)
  have c1: "length ?h' = Suc (length h)" by simp
  have c2: "\<forall>i < length h. ?h' ! i = h ! i" by (simp add: nth_append)
  have c3: "map fst ?out = map fst (h ! df)" by (induction "h ! df") auto
  have c4: "\<forall>(name, c') \<in> set ?out. \<not> isnull_any c'"
    using nem by (auto simp: imputed_no_null)
  have c5: "\<forall>name xs. (name, FloatCol xs) \<in> set (h ! df) \<longrightarrow> None \<in> set xs \<longrightarrow>
           map_of ?out name = Some (FloatCol (map (fill (median_of (dropna xs))) xs))"
  proof (intro allI impI)
    fix name xs assume m: "(name, FloatCol xs) \<in> set (h ! df)" and n: "None \<in> set xs"
    from nem[OF m] n have "dropna xs \<noteq> []" by auto
    with lookup[OF m] n show "map_of ?out name = Some (FloatCol (map (fill (median_of (dropna xs))) xs))"
      by (simp add: imputed_FloatCol)
  qed
  have c6: "\<forall>name xs. (name, ObjectCol xs) \<in> set (h ! df) \<longrightarrow> None \<in> set xs \<longrightarrow>
           (\<exists>m. first_mode (dropna xs) m \<and> map_of ?out name = Some (ObjectCol (map (fill m) xs)))"
  proof (intro allI impI)
    fix name xs assume m: "(name, ObjectCol xs) \<in> set (h ! df)" and n: "None \<in> set xs"
    from nem[OF m] n have "dropna xs \<noteq> []" by auto
    from imputed_ObjectCol[OF n this] lookup[OF m]
    show "\<exists>m. first_mode (dropna xs) m \<and> map_of ?out name = Some (ObjectCol (map (fill m) xs))"
      by auto
  qed
  have c7: "\<forall>name xs. (name, CategoryCol xs) \<in> set (h ! df) \<longrightarrow> None \<in> set xs \<longrightarrow>
           (\<exists>m. first_mode (dropna xs) m \<and> map_of ?out name = Some (CategoryCol (map (fill m) xs)))"
  proof (intro allI impI)
    fix name xs assume m: "(name, CategoryCol xs) \<in> set (h ! df)" and n: "None \<in> set xs"
    from nem[OF m] n have "dropna xs \<noteq> []" by auto
    from imputed_CategoryCol[OF n this] lookup[OF m]
    show "\<exists>m. first_mode (dropna xs) m \<and> map_of ?out name = Some (CategoryCol (map (fill m) xs))"
      by auto
  qed
  have c8: "\<forall>name xs. (name, DatetimeCol xs) \<in> set (h ! df) \<longrightarrow> None \<in> set xs \<longrightarrow>
           (\<exists>m. first_mode (dropna xs) m \<and> map_of ?out name = Some (DatetimeCol (map (fill m) xs)))"
  proof (intro allI impI)
    fix name xs assume m: "(name, DatetimeCol xs) \<in> set (h ! df)" and n: "None \<in> set xs"
    from nem[OF m] n have "dropna xs \<noteq> []" by auto
    from imputed_DatetimeCol[OF n this] lookup[OF m]
    show "\<exists>m. first_mode (dropna xs) m \<and> map_of ?out name = Some (DatetimeCol (map (fill m) xs))"
      by auto
  qed
  have c9: "\<forall>name c. (name, c) \<in> set (h ! df) \<longrightarrow> \<not> isnull_any c \<longrightarrow> map_of ?out name = Some c"
    using lookup by (auto simp: imputed_unchanged)
  show ?thesis
    apply (rule exI[of _ ?h'])
    unfolding nth_append_length
    by (intro conjI res c1 c2 c3 c4 c5 c6 c7 c8 c9)
qed

theorem clean_dataframe_imputes_witness:
  "wf_frame people_frame
   \<and> snd (clean_dataframe [people_frame] 0) = Inr 1
   \<and> map_of (fst (clean_dataframe [people_frame] 0) ! 1) ''age''
       = Some (FloatCol [Some 1, Some 2, Some 3])"
proof -
  have a: "0 < length [people_frame]" by simp
  have b: "wf_frame ([people_frame] ! 0)" by (simp add: wf_frame_def people_frame_def)
  have c: "\<forall>(name, c) \<in> set ([people_frame] ! 0). \<not> entirely_missing c"
    by (simp add: people_frame_def)
  have d: "(''age'', FloatCol [Some 1, None, Some 3]) \<in> set ([people_frame] ! 0)"
    by (simp add: people_frame_def)
  from clean_dataframe_imputes[OF a b c] obtain h' where
    r: "clean_dataframe [people_frame] 0 = (h', Inr (length [people_frame]))" and
    f: "\<forall>name xs. (name, FloatCol xs) \<in> set ([people_frame] ! 0) \<longrightarrow> None \<in> set xs \<longrightarrow>
           map_of (h' ! length [people_frame]) name
             = Some (FloatCol (map (fill (median_of (dropna xs))) xs))"
    by blast
  from f d have "map_of (h' ! length [people_frame]) ''age''
      = Some (FloatCol (map (fill (median_of (dropna [Some 1, None, Some 3]))) [Some 1, None, Some 3]))"
    by simp
  then show ?thesis using r b by (simp add: median_of_def fill_def)
qed

text \<open>
  Claim C10, as amended. When a frame holds a numeric column that is entirely missing, and
  no non-numeric column of the frame is entirely missing, \<open>clean_dataframe\<close> returns
  normally: the median of that column is NaN, filling with it changes nothing, and the
  column is in the result as it was, still entirely missing.
\<close>

theorem clean_dataframe_all_missing_numeric:
  assumes "df < length h" and "wf_frame (h ! df)"
    and "(name, c) \<in> set (h ! df)" and "is_numeric_dtype c" and "entirely_missing c"
    and "\<forall>(n, c') \<in> set (h ! df). \<not> is_numeric_dtype c' \<longrightarrow> \<not> entirely_missing c'"
  shows "\<exists>h'. clean_dataframe h df = (h', Inr (length h))
     \<and> median (num_values c) = NaN
     \<and> fillna c (Num (median (num_values c))) = c
     \<and> map_of (h' ! length h) name = Some c"
proof -
  let ?out = "map (\<lambda>(n, c). (n, imputed c)) (h ! df)"
  have dist: "distinct (map fst (h ! df))" using assms(2) by (simp add: wf_frame_def)
  have "\<forall>(n, c') \<in> set (h ! df). fillable c'"
    using assms(6) by (auto intro: not_entirely_missing_fillable numeric_fillable)
  from clean_dataframe_result[OF assms(1) dist this]
  have res: "clean_dataframe h df = (h @ [?out], Inr (length h))" .
  from assms(4,5) obtain xs where c: "c = FloatCol xs" and dn: "dropna xs = []"
    by (cases c) auto
  have med: "median (num_values c) = NaN" using c dn by (simp add: median_all_missing)
  have "imputed c = c" using c dn by (simp add: imputed_FloatCol_all_missing)
  with map_of_imputed[OF dist assms(3)] have "map_of ?out name = Some c" by simp
  then show ?thesis using res med c by simp
qed

theorem clean_dataframe_all_missing_numeric_witness:
  "snd (clean_dataframe [blank_numeric_frame] 0) = Inr 1
   \<and> map_of (fst (clean_dataframe [blank_numeric_frame] 0) ! 1) ''x'' = Some (FloatCol [None, None])"
proof -
  have a: "0 < length [blank_numeric_frame]" by simp
  have b: "wf_frame ([blank_numeric_frame] ! 0)" by (simp add: wf_frame_def blank_numeric_frame_def)
  have c: "(''x'', FloatCol [None, None]) \<in> set ([blank_numeric_frame] ! 0)"
    by (simp add: blank_numeric_frame_def)
  have d: "is_numeric_dtype (FloatCol [None, None])" by simp
  have e: "entirely_missing (FloatCol [None, None])" by simp
  have f: "\<forall>(n, c') \<in> set ([blank_numeric_frame] ! 0). \<not> is_numeric_dtype c' \<longrightarrow> \<not> entirely_missing c'"
    by (simp add: blank_numeric_frame_def)
  from clean_dataframe_all_missing_numeric[OF a b c d e f] show ?thesis by auto
qed

text \<open>
  Claim C10 as stated fails: a frame with an entirely missing float column and an entirely
  missing object column makes \<open>mode()[0]\<close> raise \<open>KeyError\<close>, so the cleaner does
  not return normally.
\<close>

theorem clean_dataframe_all_missing_counterexample:
  "wf_frame blank_frame
   \<and> map_of blank_frame ''x'' = Some (FloatCol [None])
   \<and> is_numeric_dtype (FloatCol [None]) \<and> entirely_missing (FloatCol [None])
   \<and> snd (clean_dataframe [blank_frame] 0) = Inl (KeyError ''0'')"
  by (simp add: blank_frame_def wf_frame_def clean_dataframe_def df_copy_def median_def
      set_col_def mode_vals_def)

section \<open>Properties of the profiler\<close>

lemma getitem_member:
  "distinct (map fst df) \<Longrightarrow> (n, c) \<in> set df \<Longrightarrow> getitem df n = Inr c"
  by (simp add: getitem_def)

lemma filter_label_single:
  "distinct (map fst df) \<Longrightarrow> (n, c) \<in> set df \<Longrightarrow> filter (\<lambda>(m, c'). m = n) df = [(n, c)]"
proof (induction df)
  case Nil
  then show ?case by simp
next
  case (Cons x df)
  obtain m d where x: "x = (m, d)" by (cases x)
  show ?case
  proof (cases "m = n")
    case True
    with Cons.prems x have "d = c" by (auto intro: rev_image_eqI)
    moreover have "filter (\<lambda>(m, c'). m = n) df = []"
      using Cons.prems(1) x True by (auto simp: filter_empty_conv intro: rev_image_eqI)
    ultimately show ?thesis using x True by simp
  next
    case False
    with Cons x show ?thesis by auto
  qed
qed

lemma subframe_members:
  assumes "distinct (map fst df)" "set xs \<subseteq> set df"
  shows "subframe df (map fst xs) = xs"
  using assms(2)
proof (induction xs)
  case Nil
  then show ?case by (simp add: subframe_def)
next
  case (Cons x xs)
  obtain n c where x: "x = (n, c)" by (cases x)
  with Cons.prems have "(n, c) \<in> set df" by simp
  from filter_label_single[OF assms(1) this] Cons x show ?case by (simp add: subframe_def)
qed

lemma outliers_loop_members:
  assumes "distinct (map fst df)" "set xs \<subseteq> set df"
  shows "outliers_loop df (map fst xs) = Inr (map (\<lambda>(name, c). (name, outlier_sum (num_values c))) xs)"
  using assms(2)
proof (induction xs)
  case Nil
  then show ?case by simp
next
  case (Cons x xs)
  obtain n c where x: "x = (n, c)" by (cases x)
  with Cons.prems have "(n, c) \<in> set df" by simp
  from getitem_member[OF assms(1) this] Cons x show ?case by simp
qed

lemma categorical_loop_members:
  assumes "distinct (map fst df)" "set xs \<subseteq> set df"
  shows "categorical_loop df (map fst xs) =
     Inr (map (\<lambda>(name, c). (name, \<lparr>cs_value_counts = value_counts (labels c),
                                     cs_unique_values_count = nunique (labels c)\<rparr>)) xs)"
  using assms(2)
proof (induction xs)
  case Nil
  then show ?case by simp
next
  case (Cons x xs)
  obtain n c where x: "x = (n, c)" by (cases x)
  with Cons.prems have "(n, c) \<in> set df" by simp
  from getitem_member[OF assms(1) this] Cons x show ?case by simp
qed

lemma profile_dataframe_result:
  assumes "distinct (map fst df)"
  shows "profile_dataframe df =
     (if select_dtypes number df = []
      then Inl (ValueError ''Cannot describe a DataFrame without columns'')
      else Inr (profile_record df))"
proof -
  have s1: "set (select_dtypes number df) \<subseteq> set df" by (auto simp: select_dtypes_def)
  have s2: "set (select_dtypes [Object, Category] df) \<subseteq> set df" by (auto simp: select_dtypes_def)
  show ?thesis
    unfolding profile_dataframe_def Let_def
    by (simp only: subframe_members[OF assms s1] outliers_loop_members[OF assms s1]
        categorical_loop_members[OF assms s2] describe_def profile_record_def sum.case if_distrib
        split: if_splits) simp
qed

lemma interpolation_neighbours:
  fixes pos :: real and s :: "real list"
  assumes "0 \<le> pos" "pos \<le> real k"
  shows "s ! nat \<lfloor>pos\<rfloor> + (s ! min (nat \<lfloor>pos\<rfloor> + 1) k - s ! nat \<lfloor>pos\<rfloor>) * (pos - real (nat \<lfloor>pos\<rfloor>))
      = s ! nat \<lfloor>pos\<rfloor> + (pos - real_of_int \<lfloor>pos\<rfloor>) * (s ! nat \<lceil>pos\<rceil> - s ! nat \<lfloor>pos\<rfloor>)"
proof -
  have fl0: "0 \<le> \<lfloor>pos\<rfloor>" using assms(1) by simp
  then have lo: "real (nat \<lfloor>pos\<rfloor>) = real_of_int \<lfloor>pos\<rfloor>" by simp
  show ?thesis
  proof (cases "pos = real_of_int \<lfloor>pos\<rfloor>")
    case True
    then show ?thesis unfolding lo by simp
  next
    case False
    then have ce: "\<lceil>pos\<rceil> = \<lfloor>pos\<rfloor> + 1" by (metis ceiling_altdef)
    have "real_of_int \<lfloor>pos\<rfloor> < real k"
      using False assms(2) of_int_floor_le[of pos] by linarith
    then have "real_of_int \<lfloor>pos\<rfloor> < real_of_int (int k)" by simp
    then have "\<lfloor>pos\<rfloor> < int k" by (simp only: of_int_less_iff)
    then have "nat \<lfloor>pos\<rfloor> + 1 \<le> k" using fl0 by linarith
    then have m: "min (nat \<lfloor>pos\<rfloor> + 1) k = nat \<lfloor>pos\<rfloor> + 1" by (rule min_absorb1)
    have c: "nat \<lceil>pos\<rceil> = nat \<lfloor>pos\<rfloor> + 1" using ce fl0 by (simp add: nat_add_distrib)
    show ?thesis unfolding m c lo by (simp only: mult.commute)
  qed
qed

lemma quantile_interpolated:
  assumes "0 \<le> q" "q \<le> 1" "dropna xs \<noteq> []"
  shows "quantile q xs = Fin (interpolated_quantile q (sort (dropna xs)))"
proof -
  define s where "s = sort (dropna xs)"
  define k where "k = length s - 1"
  define pos where "pos = q * real k"
  have n: "length s \<noteq> 0" using assms(3) by (simp add: s_def)
  then have rn: "real (length s) - 1 = real k" unfolding k_def by (cases "length s") simp_all
  have pos0: "0 \<le> pos" using assms(1) by (simp add: pos_def)
  have posn: "pos \<le> real k" using assms(1,2) by (simp add: pos_def mult_left_le_one_le)
  have "quantile q xs = Fin (s ! nat \<lfloor>pos\<rfloor> + (s ! min (nat \<lfloor>pos\<rfloor> + 1) k - s ! nat \<lfloor>pos\<rfloor>) * (pos - real (nat \<lfloor>pos\<rfloor>)))"
    unfolding quantile_def Let_def s_def[symmetric] k_def[symmetric] pos_def[symmetric]
    using n by (simp only: if_False)
  also have "\<dots> = Fin (s ! nat \<lfloor>pos\<rfloor> + (pos - real_of_int \<lfloor>pos\<rfloor>) * (s ! nat \<lceil>pos\<rceil> - s ! nat \<lfloor>pos\<rfloor>))"
    by (simp only: interpolation_neighbours[OF pos0 posn])
  also have "\<dots> = Fin (interpolated_quantile q s)"
    unfolding interpolated_quantile_def Let_def rn pos_def[symmetric] ..
  finally show ?thesis unfolding s_def .
qed

lemma quantile_all_missing: "dropna xs = [] \<Longrightarrow> quantile q xs = NaN"
  by (simp add: quantile_def)

lemma count_fences:
  "length (filter (\<lambda>b. b) (map (\<lambda>x. flt x (Fin lo) \<or> fgt x (Fin hi)) (as_floats xs)))
     = length (filter (\<lambda>x. x < lo \<or> x > hi) (dropna xs))"
  by (induction xs rule: dropna.induct) (auto simp: as_floats_def fgt_def)

lemma count_fences_NaN:
  "length (filter (\<lambda>b. b) (map (\<lambda>x. flt x NaN \<or> fgt x NaN) (as_floats xs))) = 0"
  by (induction xs rule: dropna.induct) (auto simp: as_floats_def fgt_def)

lemma outlier_sum_spec: "outlier_sum xs = iqr_outlier_count xs"
proof (cases "dropna xs = []")
  case True
  then show ?thesis
    using count_fences_NaN[of xs]
    by (simp add: outlier_sum_def iqr_outlier_count_def quantile_all_missing fsub_def)
next
  case False
  have q1: "quantile 0.25 xs = Fin (interpolated_quantile 0.25 (sort (dropna xs)))"
    by (rule quantile_interpolated[OF _ _ False]) simp_all
  have q3: "quantile 0.75 xs = Fin (interpolated_quantile 0.75 (sort (dropna xs)))"
    by (rule quantile_interpolated[OF _ _ False]) simp_all
  have lower: "fsub (Fin a) (fmul (Fin 1.5) (fsub (Fin b) (Fin a))) = Fin (a - 1.5 * (b - a))"
    for a b by (simp add: fsub_def)
  have upper: "fadd (Fin b) (fmul (Fin 1.5) (fsub (Fin b) (Fin a))) = Fin (b + 1.5 * (b - a))"
    for a b by (simp add: fsub_def)
  show ?thesis
    unfolding outlier_sum_def iqr_outlier_count_def Let_def q1 q3 lower upper
    by (rule count_fences)
qed

lemma map_of_members:
  "distinct (map fst df) \<Longrightarrow> set xs \<subseteq> set df \<Longrightarrow> (n, c) \<in> set xs \<Longrightarrow>
   map_of (map (\<lambda>(name, c). (name, f c)) xs) n = Some (f c)"
proof (induction xs)
  case Nil
  then show ?case by simp
next
  case (Cons x xs)
  obtain m d where x: "x = (m, d)" by (cases x)
  show ?case
  proof (cases "m = n")
    case True
    have "(n, d) \<in> set df" using Cons.prems(2) x True by simp
    moreover have "(n, c) \<in> set df" using Cons.prems(2,3) by auto
    ultimately have "d = c" using Cons.prems(1) by (metis eq_key_imp_eq_value)
    then show ?thesis using x True by simp
  next
    case False
    with Cons x show ?thesis by auto
  qed
qed

lemma salary_outliers:
  "iqr_outlier_count (num_values (IntCol [30000, 32000, 31000, 1000000, 33000])) = 1"
  by (simp add: iqr_outlier_count_def interpolated_quantile_def)

lemma salary_profile:
  "map_sum id outliers_count (profile_dataframe salary_frame) = Inr [(''salary'', 1)]"
proof -
  have "distinct (map fst salary_frame)" by (simp add: salary_frame_def)
  then have "profile_dataframe salary_frame = Inr (profile_record salary_frame)"
    by (simp add: profile_dataframe_result salary_frame_def select_dtypes_def number_def)
  moreover have "outliers_count (profile_record salary_frame) = [(''salary'', 1)]"
    using salary_outliers
    by (simp add: profile_record_def salary_frame_def select_dtypes_def number_def outlier_sum_spec)
  ultimately show ?thesis by simp
qed

text \<open>
  Claim C8. For every int64 or float64 column of a frame, \<open>profile_dataframe\<close> returns,
  and the outlier count it reports for the column is the number of its non-missing values
  strictly below \<open>Q1 - 1.5 IQR\<close> or strictly above \<open>Q3 + 1.5 IQR\<close>, the quartiles
  being interpolated linearly on the sorted non-missing values. For the salary column
  \<open>[30000, 32000, 31000, 1000000, 33000]\<close> the reported count is exactly 1.
\<close>

theorem profile_outlier_count:
  assumes "wf_frame df" and "(name, c) \<in> set df" and "dtype_of c \<in> set number"
  shows "(\<exists>p. profile_dataframe df = Inr p
           \<and> map_of (outliers_count p) name = Some (iqr_outlier_count (num_values c)))
     \<and> map_sum id outliers_count (profile_dataframe salary_frame) = Inr [(''salary'', 1)]"
proof -
  have dist: "distinct (map fst df)" using assms(1) by (simp add: wf_frame_def)
  have mem: "(name, c) \<in> set (select_dtypes number df)"
    using assms(2,3) by (simp add: select_dtypes_def)
  then have ne: "select_dtypes number df \<noteq> []" by auto
  have sub: "set (select_dtypes number df) \<subseteq> set df" by (auto simp: select_dtypes_def)
  have "map_of (outliers_count (profile_record df)) name = Some (outlier_sum (num_values c))"
    unfolding profile_record_def using map_of_members[OF dist sub mem] by simp
  then have "\<exists>p. profile_dataframe df = Inr p
           \<and> map_of (outliers_count p) name = Some (iqr_outlier_count (num_values c))"
    using ne by (simp add: profile_dataframe_result[OF dist] outlier_sum_spec)
  then show ?thesis using salary_profile by simp
qed

theorem profile_outlier_count_witness:
  "\<exists>p. profile_dataframe staff_frame = Inr p \<and> map_of (outliers_count p) ''salary'' = Some 0"
proof -
  have a: "wf_frame staff_frame" by (simp add: wf_frame_def staff_frame_def)
  have b: "(''salary'', FloatCol [Some 1, Some 2]) \<in> set staff_frame"
    by (simp add: staff_frame_def)
  have c: "dtype_of (FloatCol [Some 1, Some 2]) \<in> set number" by (simp add: number_def)
  have d: "iqr_outlier_count (num_values (FloatCol [Some 1, Some 2])) = 0"
    by (simp add: iqr_outlier_count_def interpolated_quantile_def)
  from profile_outlier_count[OF a b c] d show ?thesis by simp
qed

lemma select_dtypes_mem:
  "(n, c) \<in> set (select_dtypes include df) \<longleftrightarrow> (n, c) \<in> set df \<and> dtype_of c \<in> set include"
  by (auto simp: select_dtypes_def)

lemma label_selected:
  assumes "distinct (map fst df)" "(n, c) \<in> set df"
  shows "n \<in> set (map fst (select_dtypes include df)) \<longleftrightarrow> dtype_of c \<in> set include"
proof
  assume "n \<in> set (map fst (select_dtypes include df))"
  then obtain c' where c': "(n, c') \<in> set df" "dtype_of c' \<in> set include"
    by (auto simp: select_dtypes_mem)
  with assms have "c' = c" by (metis eq_key_imp_eq_value)
  with c' show "dtype_of c \<in> set include" by simp
next
  assume "dtype_of c \<in> set include"
  with assms(2) have "(n, c) \<in> set (select_dtypes include df)" by (simp add: select_dtypes_mem)
  then show "n \<in> set (map fst (select_dtypes include df))" by force
qed

lemma distinct_partitions:
  assumes "distinct (map fst df)"
  shows "distinct (map fst (select_dtypes number df) @ map fst (select_dtypes [Object, Category] df))"
proof -
  have d1: "distinct (map fst (select_dtypes sel df))" for sel
    unfolding select_dtypes_def using assms by (rule distinct_map_filter)
  have "set (map fst (select_dtypes number df)) \<inter> set (map fst (select_dtypes [Object, Category] df)) = {}"
  proof (rule ccontr)
    assume "\<not> ?thesis"
    then obtain n where a: "n \<in> set (map fst (select_dtypes number df))"
      and b: "n \<in> set (map fst (select_dtypes [Object, Category] df))" by auto
    from a obtain c where c: "(n, c) \<in> set df" by (auto simp: select_dtypes_mem)
    from a b label_selected[OF assms c] show False by (auto simp: number_def)
  qed
  with d1 show ?thesis by simp
qed

text \<open>
  Claim C4, as amended. For a frame with at least one int64 or float64 column,
  \<open>profile_dataframe\<close> returns a profile whose numeric parts (basic statistics and
  outlier counts) list exactly the int64 and float64 columns and whose categorical part
  lists exactly the object and category columns, each once and in frame order; no column
  is in both, and a column of any other dtype (bool, datetime64) is in neither.
\<close>

theorem profile_dataframe_partition:
  assumes "wf_frame df" and "select_dtypes number df \<noteq> []"
  shows "\<exists>p. profile_dataframe df = Inr p
     \<and> profiled_columns p =
         (map fst (select_dtypes number df), map fst (select_dtypes number df),
          map fst (select_dtypes [Object, Category] df))
     \<and> distinct (map fst (basic_statistics p) @ map fst (categorical_analysis p))
     \<and> (\<forall>(name, c) \<in> set df.
           (name \<in> set (map fst (basic_statistics p)) \<longleftrightarrow> dtype_of c \<in> {Int64, Float64})
         \<and> (name \<in> set (map fst (categorical_analysis p)) \<longleftrightarrow> dtype_of c \<in> {Object, Category}))"
proof -
  have dist: "distinct (map fst df)" using assms(1) by (simp add: wf_frame_def)
  have res: "profile_dataframe df = Inr (profile_record df)"
    using assms(2) by (simp add: profile_dataframe_result[OF dist])
  have b: "map fst (basic_statistics (profile_record df)) = map fst (select_dtypes number df)"
    by (simp add: profile_record_def comp_def case_prod_unfold)
  have o: "map fst (outliers_count (profile_record df)) = map fst (select_dtypes number df)"
    by (simp add: profile_record_def comp_def case_prod_unfold)
  have c: "map fst (categorical_analysis (profile_record df)) = map fst (select_dtypes [Object, Category] df)"
    by (simp add: profile_record_def comp_def case_prod_unfold)
  have cols: "profiled_columns (profile_record df) =
         (map fst (select_dtypes number df), map fst (select_dtypes number df),
          map fst (select_dtypes [Object, Category] df))"
    unfolding profiled_columns_def b o c ..
  have d: "distinct (map fst (basic_statistics (profile_record df)) @ map fst (categorical_analysis (profile_record df)))"
    unfolding b c by (rule distinct_partitions[OF dist])
  have e: "\<forall>(name, col) \<in> set df.
           (name \<in> set (map fst (basic_statistics (profile_record df))) \<longleftrightarrow> dtype_of col \<in> {Int64, Float64})
         \<and> (name \<in> set (map fst (categorical_analysis (profile_record df))) \<longleftrightarrow> dtype_of col \<in> {Object, Category})"
  proof (intro ballI, clarify)
    fix name col assume m: "(name, col) \<in> set df"
    from label_selected[OF dist m, of number] label_selected[OF dist m, of "[Object, Category]"]
    show "(name \<in> set (map fst (basic_statistics (profile_record df))) \<longleftrightarrow> dtype_of col \<in> {Int64, Float64})
         \<and> (name \<in> set (map fst (categorical_analysis (profile_record df))) \<longleftrightarrow> dtype_of col \<in> {Object, Category})"
      unfolding b c by (simp add: number_def)
  qed
  show ?thesis using res cols d e by blast
qed

theorem profile_dataframe_partition_witness:
  "map_sum id profiled_columns (profile_dataframe staff_frame) = Inr ([''salary''], [''salary''], [''city''])"
proof -
  have a: "wf_frame staff_frame" by (simp add: wf_frame_def staff_frame_def)
  have b: "select_dtypes number staff_frame \<noteq> []"
    by (simp add: staff_frame_def select_dtypes_def number_def)
  from profile_dataframe_partition[OF a b] obtain p where
    "profile_dataframe staff_frame = Inr p"
    "profiled_columns p =
         (map fst (select_dtypes number staff_frame), map fst (select_dtypes number staff_frame),
          map fst (select_dtypes [Object, Category] staff_frame))" by blast
  then show ?thesis by (simp add: staff_frame_def select_dtypes_def number_def)
qed

text \<open>
  Claim C4 as stated fails: in the staff frame the datetime column \<open>hired\<close> and the
  boolean column \<open>active\<close> are in neither part of the profile.
\<close>

theorem profile_dataframe_partition_counterexample:
  "wf_frame staff_frame
   \<and> map fst staff_frame = [''salary'', ''hired'', ''active'', ''city'']
   \<and> map_sum id profiled_columns (profile_dataframe staff_frame)
       = Inr ([''salary''], [''salary''], [''city''])"
proof -
  have a: "wf_frame staff_frame" by (simp add: wf_frame_def staff_frame_def)
  then have "distinct (map fst staff_frame)" by (simp add: wf_frame_def)
  then have "profile_dataframe staff_frame = Inr (profile_record staff_frame)"
    by (simp add: profile_dataframe_result staff_frame_def select_dtypes_def number_def)
  then show ?thesis using a
    by (simp add: profiled_columns_def profile_record_def staff_frame_def select_dtypes_def number_def)
qed

section \<open>Properties of the what-if scenario\<close>

lemma impact_loop_members:
  assumes "distinct (map fst df)" "getitem df col = Inr target" "set xs \<subseteq> set df"
  shows "impact_loop df col change_type val (series_stats target) (map fst xs) =
     Inr (map (\<lambda>(n, c). (n, impact_of change_type val target c))
            (filter (\<lambda>(n, c). n \<noteq> col \<and> material target c) xs))"
  using assms(3)
proof (induction xs)
  case Nil
  then show ?case by simp
next
  case (Cons x xs)
  obtain n c where x: "x = (n, c)" by (cases x)
  with Cons.prems have "(n, c) \<in> set df" by simp
  from getitem_member[OF assms(1) this] Cons x assms(2) show ?case
    by (simp add: Let_def impact_of_def material_def)
qed

lemma set_col_replace:
  assumes "name \<in> set (map fst df)"
  shows "set_col df name c = map (\<lambda>(n, old). (n, if n = name then c else old)) df"
proof -
  have "(\<lambda>(n, old). if n = name then (n, c) else (n, old)) = (\<lambda>(n, old). (n, if n = name then c else old))"
    by (auto simp: fun_eq_iff)
  with assms show ?thesis by (simp add: set_col_def)
qed

lemma map_fst_set_col:
  "name \<in> set (map fst df) \<Longrightarrow> map fst (set_col df name c) = map fst df"
  by (simp add: set_col_replace comp_def case_prod_unfold)

lemma map_of_set_col:
  "name \<in> set (map fst df) \<Longrightarrow> map_of (set_col df name c) name = Some c"
  unfolding set_col_replace by (induction df) auto

lemma numerical_cols_set_col:
  assumes "name \<in> set (map fst df)" "dtype_of c \<in> set number"
  shows "map fst (select_dtypes number (set_col df name c))
       = map fst (filter (\<lambda>(n, old). n = name \<or> dtype_of old \<in> set number) df)"
  unfolding set_col_replace[OF assms(1)] select_dtypes_def using assms(2)
  by (induction df) (auto split: if_splits)

lemma filter_other_numeric:
  "filter (\<lambda>(n, c). n \<noteq> col \<and> P c) (filter (\<lambda>(n, old). n = col \<or> dtype_of old \<in> set number) df)
     = filter (\<lambda>(n, c). n \<noteq> col \<and> P c) (select_dtypes number df)"
  unfolding select_dtypes_def by (induction df) auto

lemma two_copies:
  "(h @ [a, b]) ! length h = a" "(h @ [a, b]) ! Suc (length h) = b"
  "(h @ [a, b])[length h := x] = h @ [x, b]"
  by (simp_all add: nth_append list_update_append)

lemma apply_change_float:
  "apply_change df col change_type val s = Some (new_column, description) \<Longrightarrow>
   dtype_of new_column \<in> set number"
  by (auto simp: apply_change_def series_mul_def broadcast_def number_def split: if_splits)

lemma run_what_if_closed:
  assumes "df < length (heap w)" and "distinct (map fst (heap w ! df))"
    and "map_of (heap w ! df) (m_column m) = Some target" and "is_numeric_dtype target"
    and "apply_change (heap w ! df) (m_column m) (m_change_type m) (m_value m) target
           = Some (new_column, description)"
  shows "run_what_if_scenario invoke w df m =
     (w\<lparr>heap := heap w @ [set_col (heap w ! df) (m_column m) new_column, heap w ! df],
        analyzer_calls := analyzer_calls w
           @ [profile_record (set_col (heap w ! df) (m_column m) new_column)]\<rparr>,
      case invoke (profile_record (set_col (heap w ! df) (m_column m) new_column)) of
        Inl e \<Rightarrow> ErrorDuringAnalysis e
      | Inr text \<Rightarrow> Report (expected_report (heap w ! df) m target new_column description text))"
proof -
  let ?frame = "heap w ! df"
  let ?col = "m_column m"
  let ?modified = "set_col ?frame ?col new_column"
  let ?h2 = "heap w @ [?frame, ?frame]"
  let ?h3 = "heap w @ [?modified, ?frame]"
  let ?p = "profile_record ?modified"
  have mem: "?col \<in> set (map fst ?frame)"
    using assms(3) by (metis map_of_eq_None_iff option.distinct(1) set_map)
  have g: "getitem ?frame ?col = Inr target" using assms(3) by (simp add: getitem_def)
  have gm: "getitem ?modified ?col = Inr new_column"
    by (simp add: getitem_def map_of_set_col[OF mem])
  have fl: "dtype_of new_column \<in> set number" by (rule apply_change_float[OF assms(5)])
  have distm: "distinct (map fst ?modified)" using assms(2) by (simp add: map_fst_set_col[OF mem])
  have sub: "set (filter (\<lambda>(n, old). n = ?col \<or> dtype_of old \<in> set number) ?frame) \<subseteq> set ?frame"
    by auto
  have loop: "impact_loop ?frame ?col (m_change_type m) (m_value m) (series_stats target)
        (map fst (select_dtypes number ?modified))
      = Inr (expected_impacts ?frame ?col (m_change_type m) (m_value m) target)"
    unfolding numerical_cols_set_col[OF mem fl] impact_loop_members[OF assms(2) g sub]
      filter_other_numeric expected_impacts_def ..
  have "(?col, new_column) \<in> set (select_dtypes number ?modified)"
    using fl map_of_SomeD[OF map_of_set_col[OF mem, of new_column]] by (simp add: select_dtypes_def)
  then have "select_dtypes number ?modified \<noteq> []" by auto
  then have prof: "profile_dataframe ?modified = Inr ?p"
    by (simp add: profile_dataframe_result[OF distm])
  have body: "what_if_body invoke (w\<lparr>heap := ?h2\<rparr>) (length (heap w)) (Suc (length (heap w))) m =
      (w\<lparr>heap := ?h3, analyzer_calls := analyzer_calls w @ [?p]\<rparr>,
       case invoke ?p of Inl e \<Rightarrow> Inl e
       | Inr text \<Rightarrow> Inr (Report (expected_report ?frame m target new_column description text)))"
    unfolding what_if_body_def
    by (simp add: Let_def two_copies g gm assms(5) loop prof expected_report_def split: sum.splits)
  show ?thesis
    unfolding run_what_if_scenario_def df_copy_def
    using mem assms(1,4)
    by (simp add: Let_def two_copies nth_append g body split: sum.splits)
qed

lemma member_lookup:
  "wf_frame df \<Longrightarrow> (name, c) \<in> set df \<Longrightarrow> map_of df name = Some c"
  by (simp add: wf_frame_def)

lemma apply_change_valid:
  assumes "change_type \<in> {''Percentage Increase'', ''Percentage Decrease'', ''Set to Value''}"
  shows "\<exists>new_column description.
           apply_change df col change_type val s = Some (new_column, description)"
  using assms by (auto simp: apply_change_def)

lemma apply_change_percentage:
  assumes "change_type \<in> {''Percentage Increase'', ''Percentage Decrease''}"
  shows "apply_change df col change_type val s =
     Some (series_mul s (if change_type = ''Percentage Increase'' then 1 + val / 100 else 1 - val / 100),
           if change_type = ''Percentage Increase'' then Increased col val else Decreased col val)"
  using assms by (auto simp: apply_change_def)

lemma run_what_if_invalid:
  assumes "df < length (heap w)"
  shows "m_column m \<notin> set (map fst (heap w ! df)) \<Longrightarrow>
           run_what_if_scenario invoke w df m
             = (w\<lparr>heap := heap w @ [heap w ! df, heap w ! df]\<rparr>, ColumnNotFound (m_column m))"
    and "map_of (heap w ! df) (m_column m) = Some c \<Longrightarrow> \<not> is_numeric_dtype c \<Longrightarrow>
           run_what_if_scenario invoke w df m
             = (w\<lparr>heap := heap w @ [heap w ! df, heap w ! df]\<rparr>, ColumnNotNumerical (m_column m))"
proof -
  assume "m_column m \<notin> set (map fst (heap w ! df))"
  then show "run_what_if_scenario invoke w df m
             = (w\<lparr>heap := heap w @ [heap w ! df, heap w ! df]\<rparr>, ColumnNotFound (m_column m))"
    unfolding run_what_if_scenario_def df_copy_def using assms
    by (simp add: Let_def two_copies nth_append)
next
  assume c: "map_of (heap w ! df) (m_column m) = Some c" and n: "\<not> is_numeric_dtype c"
  from c have mem: "m_column m \<in> set (map fst (heap w ! df))"
    by (metis map_of_eq_None_iff option.distinct(1) set_map)
  from c have g: "getitem (heap w ! df) (m_column m) = Inr c" by (simp add: getitem_def)
  show "run_what_if_scenario invoke w df m
             = (w\<lparr>heap := heap w @ [heap w ! df, heap w ! df]\<rparr>, ColumnNotNumerical (m_column m))"
    unfolding run_what_if_scenario_def df_copy_def using assms mem n
    by (simp add: Let_def two_copies nth_append g)
qed

text \<open>
  Claim C1. When the target column is not in the frame, or is in it but not numeric,
  \<open>run_what_if_scenario\<close> returns the error message naming the column (not found, or
  not numerical). It returns no report, hence no statistic, it sends nothing to the text
  generator, and the only change to the heap is the two copies it allocated: the input
  frame is as it was.
\<close>

theorem what_if_rejects_invalid_column:
  assumes "df < length (heap w)" and "wf_frame (heap w ! df)"
    and "m_column m \<notin> set (map fst (heap w ! df))
         \<or> (\<exists>c. (m_column m, c) \<in> set (heap w ! df) \<and> \<not> is_numeric_dtype c)"
  shows "snd (run_what_if_scenario invoke w df m)
           = (if m_column m \<in> set (map fst (heap w ! df))
              then ColumnNotNumerical (m_column m) else ColumnNotFound (m_column m))
     \<and> report_of (snd (run_what_if_scenario invoke w df m)) = None
     \<and> analyzer_calls (fst (run_what_if_scenario invoke w df m)) = analyzer_calls w
     \<and> heap (fst (run_what_if_scenario invoke w df m)) = heap w @ [heap w ! df, heap w ! df]
     \<and> heap (fst (run_what_if_scenario invoke w df m)) ! df = heap w ! df"
proof (cases "m_column m \<in> set (map fst (heap w ! df))")
  case False
  from run_what_if_invalid(1)[OF assms(1) False, of invoke] assms(1) show ?thesis
    using False by (simp add: nth_append)
next
  case True
  with assms(3) obtain c where c: "(m_column m, c) \<in> set (heap w ! df)" "\<not> is_numeric_dtype c"
    by auto
  from member_lookup[OF assms(2) c(1)] have "map_of (heap w ! df) (m_column m) = Some c" .
  from run_what_if_invalid(2)[OF assms(1) this c(2), of invoke] assms(1) show ?thesis
    using True by (simp add: nth_append)
qed

theorem what_if_rejects_invalid_column_witness:
  "snd (run_what_if_scenario answers (start order_frame) 0 (request ''bonus'' ''Percentage Increase'' 10))
     = ColumnNotFound ''bonus''
   \<and> snd (run_what_if_scenario answers (start order_frame) 0 (request ''s'' ''Percentage Increase'' 10))
     = ColumnNotNumerical ''s''
   \<and> heap (fst (run_what_if_scenario answers (start order_frame) 0
         (request ''bonus'' ''Percentage Increase'' 10))) ! 0 = order_frame"
proof -
  have a: "0 < length (heap (start order_frame))" by (simp add: start_def)
  have b: "wf_frame (heap (start order_frame) ! 0)"
    by (simp add: start_def order_frame_def wf_frame_def)
  have c1: "m_column (request ''bonus'' ''Percentage Increase'' 10) \<notin> set (map fst (heap (start order_frame) ! 0))
      \<or> (\<exists>c. (m_column (request ''bonus'' ''Percentage Increase'' 10), c) \<in> set (heap (start order_frame) ! 0)
             \<and> \<not> is_numeric_dtype c)"
    by (simp add: start_def order_frame_def request_def)
  have c2: "m_column (request ''s'' ''Percentage Increase'' 10) \<notin> set (map fst (heap (start order_frame) ! 0))
      \<or> (\<exists>c. (m_column (request ''s'' ''Percentage Increase'' 10), c) \<in> set (heap (start order_frame) ! 0)
             \<and> \<not> is_numeric_dtype c)"
    by (simp add: start_def order_frame_def request_def)
  from what_if_rejects_invalid_column[OF a b c1, of answers]
       what_if_rejects_invalid_column[OF a b c2, of answers]
  show ?thesis by (simp add: start_def order_frame_def request_def)
qed

lemma corr_a_b: "corr [Some 1, Some 2, Some 3] [Some 1, Some 3, Some 2] = Fin (1 / 2)"
  by (simp add: corr_def)

lemma corr_a_c: "corr [Some 1, Some 2, Some 3] [Some 2, Some 3, Some 4] = Fin 1"
  by (simp add: corr_def)

lemma order_frame_impacts:
  "expected_impacts order_frame ''a'' ''Percentage Increase'' 10 (FloatCol [Some 1, Some 2, Some 3])
     = [(''b'', \<lparr>i_correlation = Fin (1 / 2), i_estimated_impact = Fin 5\<rparr>),
        (''c'', \<lparr>i_correlation = Fin 1, i_estimated_impact = Fin 10\<rparr>)]"
  by (simp add: expected_impacts_def order_frame_def select_dtypes_def number_def material_def
      impact_of_def corr_a_b corr_a_c fgt_def estimate_impact_def)


lemma impacts_labels:
  "map fst (expected_impacts df col change_type val target)
     = map fst (filter (\<lambda>(n, c). n \<noteq> col \<and> material target c) (select_dtypes number df))"
  by (simp add: expected_impacts_def comp_def case_prod_unfold)

text \<open>
  Claim C3, as amended. For a valid request answered by the text generator, the impact
  tuples of the report are listed in the order of the frame's columns: their labels are
  the labels of the int64 and float64 columns other than the target whose absolute
  correlation with the target exceeds 0.1, in frame order. Nothing sorts them.
\<close>

theorem what_if_impacts_in_column_order:
  assumes "df < length (heap w)" and "wf_frame (heap w ! df)"
    and "(m_column m, target) \<in> set (heap w ! df)" and "is_numeric_dtype target"
    and "m_change_type m \<in> {''Percentage Increase'', ''Percentage Decrease'', ''Set to Value''}"
    and "\<forall>p. invoke p = Inr (reply p)"
  shows "\<exists>r. snd (run_what_if_scenario invoke w df m) = Report r
     \<and> map fst (r_impact_analysis r)
         = map fst (filter (\<lambda>(name, c). name \<noteq> m_column m
                \<and> fgt (fabs (corr (num_values target) (num_values c))) (Fin 0.1))
              (select_dtypes number (heap w ! df)))"
proof -
  have dist: "distinct (map fst (heap w ! df))" using assms(2) by (simp add: wf_frame_def)
  have look: "map_of (heap w ! df) (m_column m) = Some target"
    by (rule member_lookup[OF assms(2,3)])
  from apply_change_valid[OF assms(5)] obtain new_column description where
    ac: "apply_change (heap w ! df) (m_column m) (m_change_type m) (m_value m) target
           = Some (new_column, description)" by blast
  show ?thesis
    unfolding run_what_if_closed[OF assms(1) dist look assms(4) ac]
    using assms(6) by (simp add: expected_report_def impacts_labels material_def)
qed

theorem what_if_impacts_in_column_order_witness:
  "map_option (map fst \<circ> r_impact_analysis)
     (report_of (snd (run_what_if_scenario answers (start order_frame) 0
        (request ''a'' ''Percentage Increase'' 10))))
     = Some [''b'', ''c'']"
proof -
  have a: "0 < length (heap (start order_frame))" by (simp add: start_def)
  have b: "wf_frame (heap (start order_frame) ! 0)"
    by (simp add: start_def order_frame_def wf_frame_def)
  have c: "(m_column (request ''a'' ''Percentage Increase'' 10), FloatCol [Some 1, Some 2, Some 3])
      \<in> set (heap (start order_frame) ! 0)"
    by (simp add: start_def order_frame_def request_def)
  have d: "is_numeric_dtype (FloatCol [Some 1, Some 2, Some 3])" by simp
  have e: "m_change_type (request ''a'' ''Percentage Increase'' 10)
      \<in> {''Percentage Increase'', ''Percentage Decrease'', ''Set to Value''}"
    by (simp add: request_def)
  have f: "\<forall>p. answers p = Inr ((\<lambda>p. ''narrative'') p)" by (simp add: answers_def)
  from what_if_impacts_in_column_order[OF a b c d e f] obtain r where
    r: "snd (run_what_if_scenario answers (start order_frame) 0
           (request ''a'' ''Percentage Increase'' 10)) = Report r"
    and l: "map fst (r_impact_analysis r)
         = map fst (filter (\<lambda>(name, c). name \<noteq> m_column (request ''a'' ''Percentage Increase'' 10)
                \<and> fgt (fabs (corr (num_values (FloatCol [Some 1, Some 2, Some 3])) (num_values c))) (Fin 0.1))
              (select_dtypes number (heap (start order_frame) ! 0)))"
    by blast
  have "map fst (r_impact_analysis r) = [''b'', ''c'']"
    unfolding l
    by (simp add: start_def order_frame_def request_def select_dtypes_def number_def
        corr_a_b corr_a_c fgt_def)
  with r show ?thesis by simp
qed

text \<open>
  Claim C3 as stated fails: with \<open>b\<close> (correlation 0.5) before \<open>c\<close> (correlation 1)
  in the frame, the report lists \<open>b\<close> before \<open>c\<close>, which is not descending absolute
  correlation.
\<close>

theorem what_if_impact_order_counterexample:
  "map_option r_impact_analysis
     (report_of (snd (run_what_if_scenario answers (start order_frame) 0
        (request ''a'' ''Percentage Increase'' 10))))
     = Some [(''b'', \<lparr>i_correlation = Fin (1 / 2), i_estimated_impact = Fin 5\<rparr>),
             (''c'', \<lparr>i_correlation = Fin 1, i_estimated_impact = Fin 10\<rparr>)]
   \<and> \<not> descending_abs_correlation
         [(''b'', \<lparr>i_correlation = Fin (1 / 2), i_estimated_impact = Fin 5\<rparr>),
          (''c'', \<lparr>i_correlation = Fin 1, i_estimated_impact = Fin 10\<rparr>)]"
proof -
  have a: "0 < length (heap (start order_frame))" by (simp add: start_def)
  have b: "distinct (map fst (heap (start order_frame) ! 0))" by (simp add: start_def order_frame_def)
  have c: "map_of (heap (start order_frame) ! 0) (m_column (request ''a'' ''Percentage Increase'' 10))
      = Some (FloatCol [Some 1, Some 2, Some 3])"
    by (simp add: start_def order_frame_def request_def)
  have d: "is_numeric_dtype (FloatCol [Some 1, Some 2, Some 3])" by simp
  have e: "apply_change (heap (start order_frame) ! 0) (m_column (request ''a'' ''Percentage Increase'' 10))
      (m_change_type (request ''a'' ''Percentage Increase'' 10)) (m_value (request ''a'' ''Percentage Increase'' 10))
      (FloatCol [Some 1, Some 2, Some 3])
      = Some (series_mul (FloatCol [Some 1, Some 2, Some 3]) (1 + 10 / 100), Increased ''a'' 10)"
    by (simp add: apply_change_def request_def)
  have h0: "heap (start order_frame) ! 0 = order_frame" by (simp add: start_def)
  have rq: "m_column (request ''a'' ''Percentage Increase'' 10) = ''a''"
     "m_change_type (request ''a'' ''Percentage Increase'' 10) = ''Percentage Increase''"
     "m_value (request ''a'' ''Percentage Increase'' 10) = 10"
    by (simp_all add: request_def)
  show ?thesis
    unfolding run_what_if_closed[OF a b c d e]
    by (simp add: answers_def expected_report_def h0 rq order_frame_impacts descending_abs_correlation_def)
qed


lemma impacts_member:
  assumes "distinct (map fst df)" "(name, c) \<in> set df" "name \<noteq> col" "dtype_of c \<in> set number"
  shows "name \<in> set (map fst (expected_impacts df col change_type val target)) \<longleftrightarrow> material target c"
    and "(name, i) \<in> set (expected_impacts df col change_type val target) \<Longrightarrow>
         i = impact_of change_type val target c"
proof -
  show "name \<in> set (map fst (expected_impacts df col change_type val target)) \<longleftrightarrow> material target c"
  proof
    assume "name \<in> set (map fst (expected_impacts df col change_type val target))"
    then obtain c' where c': "(name, c') \<in> set df" "material target c'"
      by (auto simp: impacts_labels select_dtypes_mem)
    with assms(1,2) have "c' = c" by (metis eq_key_imp_eq_value)
    with c' show "material target c" by simp
  next
    assume "material target c"
    with assms(2,3,4) have "(name, c) \<in> set (filter (\<lambda>(n, c). n \<noteq> col \<and> material target c) (select_dtypes number df))"
      by (simp add: select_dtypes_mem)
    then show "name \<in> set (map fst (expected_impacts df col change_type val target))"
      unfolding impacts_labels by force
  qed
next
  assume "(name, i) \<in> set (expected_impacts df col change_type val target)"
  then obtain c' where c': "(name, c') \<in> set df" "i = impact_of change_type val target c'"
    by (auto simp: expected_impacts_def select_dtypes_mem)
  with assms(1,2) have "c' = c" by (metis eq_key_imp_eq_value)
  with c' show "i = impact_of change_type val target c" by simp
qed

lemma estimate_impact_percentage:
  "change_type \<in> {''Percentage Increase'', ''Percentage Decrease''} \<Longrightarrow>
   estimate_impact change_type val st r
     = fmul (fmul r (Fin val)) (Fin (if change_type = ''Percentage Increase'' then 1 else - 1))"
  by (simp add: estimate_impact_def)

text \<open>
  Claim C5. For a valid percentage request answered by the text generator, every int64 or
  float64 column other than the target is in the impact list exactly when the absolute
  value of its Pearson correlation with the target, computed on the unmodified frame,
  exceeds 0.1; its tuple carries that correlation and the estimated impact
  \<open>correlation * p\<close> for an increase and \<open>correlation * p * (-1)\<close> for a decrease.
  The witness is a column perfectly correlated with the target (correlation 1) under a
  20 percent increase: its estimated impact is 20.
\<close>

theorem what_if_percentage_impacts:
  assumes "df < length (heap w)" and "wf_frame (heap w ! df)"
    and "(m_column m, target) \<in> set (heap w ! df)" and "is_numeric_dtype target"
    and "m_change_type m \<in> {''Percentage Increase'', ''Percentage Decrease''}"
    and "\<forall>p. invoke p = Inr (reply p)"
  shows "\<exists>r. snd (run_what_if_scenario invoke w df m) = Report r
     \<and> (\<forall>(name, c) \<in> set (heap w ! df).
           name \<noteq> m_column m \<and> dtype_of c \<in> {Int64, Float64} \<longrightarrow>
             (name \<in> set (map fst (r_impact_analysis r))
                \<longleftrightarrow> fgt (fabs (corr (num_values target) (num_values c))) (Fin 0.1))
           \<and> (\<forall>i. (name, i) \<in> set (r_impact_analysis r) \<longrightarrow>
                  i_correlation i = corr (num_values target) (num_values c)
                \<and> i_estimated_impact i
                    = fmul (fmul (corr (num_values target) (num_values c)) (Fin (m_value m)))
                        (Fin (if m_change_type m = ''Percentage Increase'' then 1 else - 1))))"
proof -
  let ?frame = "heap w ! df"
  have dist: "distinct (map fst ?frame)" using assms(2) by (simp add: wf_frame_def)
  have look: "map_of ?frame (m_column m) = Some target" by (rule member_lookup[OF assms(2,3)])
  have ac: "apply_change ?frame (m_column m) (m_change_type m) (m_value m) target
      = Some (series_mul target (if m_change_type m = ''Percentage Increase''
                 then 1 + m_value m / 100 else 1 - m_value m / 100),
              if m_change_type m = ''Percentage Increase''
              then Increased (m_column m) (m_value m) else Decreased (m_column m) (m_value m))"
    by (rule apply_change_percentage[OF assms(5)])
  let ?imp = "expected_impacts ?frame (m_column m) (m_change_type m) (m_value m) target"
  have main: "\<forall>(name, c) \<in> set ?frame.
           name \<noteq> m_column m \<and> dtype_of c \<in> {Int64, Float64} \<longrightarrow>
             (name \<in> set (map fst ?imp)
                \<longleftrightarrow> fgt (fabs (corr (num_values target) (num_values c))) (Fin 0.1))
           \<and> (\<forall>i. (name, i) \<in> set ?imp \<longrightarrow>
                  i_correlation i = corr (num_values target) (num_values c)
                \<and> i_estimated_impact i
                    = fmul (fmul (corr (num_values target) (num_values c)) (Fin (m_value m)))
                        (Fin (if m_change_type m = ''Percentage Increase'' then 1 else - 1)))"
  proof (intro ballI, clarify)
    fix name c
    assume mem: "(name, c) \<in> set ?frame" and ne: "name \<noteq> m_column m"
      and dt: "dtype_of c \<in> {Int64, Float64}"
    from dt have dn: "dtype_of c \<in> set number" by (simp add: number_def)
    note im = impacts_member[OF dist mem ne dn, where change_type = "m_change_type m"
        and val = "m_value m" and target = target]
    have p1: "name \<in> set (map fst ?imp)
                \<longleftrightarrow> fgt (fabs (corr (num_values target) (num_values c))) (Fin 0.1)"
      using im(1) by (simp add: material_def)
    have p2: "\<forall>i. (name, i) \<in> set ?imp \<longrightarrow>
                  i_correlation i = corr (num_values target) (num_values c)
                \<and> i_estimated_impact i
                    = fmul (fmul (corr (num_values target) (num_values c)) (Fin (m_value m)))
                        (Fin (if m_change_type m = ''Percentage Increase'' then 1 else - 1))"
    proof (intro allI impI)
      fix i assume "(name, i) \<in> set ?imp"
      from im(2)[OF this] show "i_correlation i = corr (num_values target) (num_values c)
                \<and> i_estimated_impact i
                    = fmul (fmul (corr (num_values target) (num_values c)) (Fin (m_value m)))
                        (Fin (if m_change_type m = ''Percentage Increase'' then 1 else - 1))"
        by (simp add: impact_of_def estimate_impact_percentage[OF assms(5)])
    qed
    from p1 p2 show "(name \<in> set (map fst ?imp)
                \<longleftrightarrow> fgt (fabs (corr (num_values target) (num_values c))) (Fin 0.1))
           \<and> (\<forall>i. (name, i) \<in> set ?imp \<longrightarrow>
                  i_correlation i = corr (num_values target) (num_values c)
                \<and> i_estimated_impact i
                    = fmul (fmul (corr (num_values target) (num_values c)) (Fin (m_value m)))
                        (Fin (if m_change_type m = ''Percentage Increase'' then 1 else - 1)))"
      by (rule conjI)
  qed
  have "snd (run_what_if_scenario invoke w df m)
      = Report (expected_report ?frame m target
          (series_mul target (if m_change_type m = ''Percentage Increase''
                 then 1 + m_value m / 100 else 1 - m_value m / 100))
          (if m_change_type m = ''Percentage Increase''
              then Increased (m_column m) (m_value m) else Decreased (m_column m) (m_value m))
          (reply (profile_record (set_col ?frame (m_column m)
             (series_mul target (if m_change_type m = ''Percentage Increase''
                 then 1 + m_value m / 100 else 1 - m_value m / 100))))))"
    unfolding run_what_if_closed[OF assms(1) dist look assms(4) ac]
    using assms(6) by simp
  moreover have "r_impact_analysis (expected_report ?frame m target nc d t) = ?imp" for nc d t
    by (simp add: expected_report_def)
  ultimately show ?thesis using main by (intro exI conjI) (assumption, simp only:)
qed

theorem what_if_percentage_impacts_witness:
  "\<exists>r. snd (run_what_if_scenario answers (start order_frame) 0
           (request ''a'' ''Percentage Increase'' 20)) = Report r
     \<and> (''c'', \<lparr>i_correlation = Fin 1, i_estimated_impact = Fin 20\<rparr>) \<in> set (r_impact_analysis r)"
proof -
  let ?m = "request ''a'' ''Percentage Increase'' 20"
  let ?a = "FloatCol [Some 1, Some 2, Some 3]"
  let ?c = "FloatCol [Some 2, Some 3, Some 4]"
  have a: "0 < length (heap (start order_frame))" by (simp add: start_def)
  have b: "wf_frame (heap (start order_frame) ! 0)"
    by (simp add: start_def order_frame_def wf_frame_def)
  have c: "(m_column ?m, ?a) \<in> set (heap (start order_frame) ! 0)"
    by (simp add: start_def order_frame_def request_def)
  have d: "is_numeric_dtype ?a" by simp
  have e: "m_change_type ?m \<in> {''Percentage Increase'', ''Percentage Decrease''}"
    by (simp add: request_def)
  have f: "\<forall>p. answers p = Inr ((\<lambda>p. ''narrative'') p)" by (simp add: answers_def)
  from what_if_percentage_impacts[OF a b c d e f] obtain r where
    r: "snd (run_what_if_scenario answers (start order_frame) 0 ?m) = Report r"
    and l: "\<forall>(name, c) \<in> set (heap (start order_frame) ! 0).
           name \<noteq> m_column ?m \<and> dtype_of c \<in> {Int64, Float64} \<longrightarrow>
             (name \<in> set (map fst (r_impact_analysis r))
                \<longleftrightarrow> fgt (fabs (corr (num_values ?a) (num_values c))) (Fin 0.1))
           \<and> (\<forall>i. (name, i) \<in> set (r_impact_analysis r) \<longrightarrow>
                  i_correlation i = corr (num_values ?a) (num_values c)
                \<and> i_estimated_impact i
                    = fmul (fmul (corr (num_values ?a) (num_values c)) (Fin (m_value ?m)))
                        (Fin (if m_change_type ?m = ''Percentage Increase'' then 1 else - 1)))"
    by blast
  have mem: "(''c'', ?c) \<in> set (heap (start order_frame) ! 0)"
    by (simp add: start_def order_frame_def)
  from l mem have
    k1: "''c'' \<in> set (map fst (r_impact_analysis r))"
    and k2: "\<forall>i. (''c'', i) \<in> set (r_impact_analysis r) \<longrightarrow>
        i_correlation i = Fin 1 \<and> i_estimated_impact i = Fin 20"
    by (auto simp: request_def corr_a_c fgt_def)
  from k1 obtain i where i: "(''c'', i) \<in> set (r_impact_analysis r)" by auto
  with k2 have "i = \<lparr>i_correlation = Fin 1, i_estimated_impact = Fin 20\<rparr>" by simp
  with i r show ?thesis by blast
qed

text \<open>
  Claim C6, as amended. When the call to the text generator fails on a valid request,
  \<open>run_what_if_scenario\<close> does not raise: the handler returns the message "Error
  during what-if analysis" carrying the failure. No report is returned, so none of the
  numeric sections reaches the caller; the input frame is as it was.
\<close>

theorem what_if_generator_failure:
  assumes "df < length (heap w)" and "wf_frame (heap w ! df)"
    and "(m_column m, target) \<in> set (heap w ! df)" and "is_numeric_dtype target"
    and "m_change_type m \<in> {''Percentage Increase'', ''Percentage Decrease'', ''Set to Value''}"
    and "\<forall>p. invoke p = Inl (failure p)"
  shows "\<exists>p. snd (run_what_if_scenario invoke w df m) = ErrorDuringAnalysis (failure p)
     \<and> analyzer_calls (fst (run_what_if_scenario invoke w df m)) = analyzer_calls w @ [p]
     \<and> report_of (snd (run_what_if_scenario invoke w df m)) = None
     \<and> heap (fst (run_what_if_scenario invoke w df m)) ! df = heap w ! df"
proof -
  have dist: "distinct (map fst (heap w ! df))" using assms(2) by (simp add: wf_frame_def)
  have look: "map_of (heap w ! df) (m_column m) = Some target"
    by (rule member_lookup[OF assms(2,3)])
  from apply_change_valid[OF assms(5)] obtain new_column description where
    ac: "apply_change (heap w ! df) (m_column m) (m_change_type m) (m_value m) target
           = Some (new_column, description)" by blast
  show ?thesis
    unfolding run_what_if_closed[OF assms(1) dist look assms(4) ac]
    using assms(1,6) by (simp add: nth_append)
qed

theorem what_if_generator_failure_witness:
  "snd (run_what_if_scenario times_out (start order_frame) 0 (request ''a'' ''Set to Value'' 7))
     = ErrorDuringAnalysis (ExternalFailure ''timeout'')
   \<and> heap (fst (run_what_if_scenario times_out (start order_frame) 0
        (request ''a'' ''Set to Value'' 7))) ! 0 = order_frame"
proof -
  let ?m = "request ''a'' ''Set to Value'' 7"
  have a: "0 < length (heap (start order_frame))" by (simp add: start_def)
  have b: "wf_frame (heap (start order_frame) ! 0)"
    by (simp add: start_def order_frame_def wf_frame_def)
  have c: "(m_column ?m, FloatCol [Some 1, Some 2, Some 3]) \<in> set (heap (start order_frame) ! 0)"
    by (simp add: start_def order_frame_def request_def)
  have d: "is_numeric_dtype (FloatCol [Some 1, Some 2, Some 3])" by simp
  have e: "m_change_type ?m \<in> {''Percentage Increase'', ''Percentage Decrease'', ''Set to Value''}"
    by (simp add: request_def)
  have f: "\<forall>p. times_out p = Inl ((\<lambda>p. ExternalFailure ''timeout'') p)"
    by (simp add: times_out_def)
  from what_if_generator_failure[OF a b c d e f] show ?thesis by (auto simp: start_def)
qed

text \<open>
  Claim C6 as stated fails: with a generator that times out, the result of a valid
  request is the error message alone, not a report with its narrative marked unavailable.
\<close>

theorem what_if_generator_failure_counterexample:
  "snd (run_what_if_scenario times_out (start order_frame) 0
          (request ''a'' ''Percentage Increase'' 10))
     = ErrorDuringAnalysis (ExternalFailure ''timeout'')
   \<and> report_of (snd (run_what_if_scenario times_out (start order_frame) 0
          (request ''a'' ''Percentage Increase'' 10))) = None"
proof -
  let ?m = "request ''a'' ''Percentage Increase'' 10"
  have a: "0 < length (heap (start order_frame))" by (simp add: start_def)
  have b: "distinct (map fst (heap (start order_frame) ! 0))" by (simp add: start_def order_frame_def)
  have c: "map_of (heap (start order_frame) ! 0) (m_column ?m) = Some (FloatCol [Some 1, Some 2, Some 3])"
    by (simp add: start_def order_frame_def request_def)
  have d: "is_numeric_dtype (FloatCol [Some 1, Some 2, Some 3])" by simp
  have e: "apply_change (heap (start order_frame) ! 0) (m_column ?m) (m_change_type ?m) (m_value ?m)
      (FloatCol [Some 1, Some 2, Some 3])
      = Some (series_mul (FloatCol [Some 1, Some 2, Some 3]) (1 + 10 / 100), Increased ''a'' 10)"
    by (simp add: apply_change_def request_def)
  show ?thesis
    unfolding run_what_if_closed[OF a b c d e] by (simp add: times_out_def)
qed

lemma corr_zero_mean_b: "corr [Some (- 1), Some 0, Some 1] [Some 1, Some 2, Some 3] = Fin 1"
  by (simp add: corr_def)

text \<open>
  Claim C2 does not hold of the code. Line 124 divides by the baseline mean without the
  guard that line 101 has: for a target column \<open>[-1, 0, 1]\<close> (mean 0) set to 5, with a
  column \<open>b\<close> of correlation 1, the implied percentage change is \<open>5 / 0\<close>, an infinity,
  and the report is returned with an infinite estimated impact on \<open>b\<close>; nothing fails
  and nothing is flagged.
\<close>

theorem what_if_set_to_value_zero_mean:
  "mean (num_values (FloatCol [Some (- 1), Some 0, Some 1])) = Fin 0
   \<and> map_option r_impact_analysis
       (report_of (snd (run_what_if_scenario answers (start zero_mean_frame) 0
          (request ''a'' ''Set to Value'' 5))))
     = Some [(''b'', \<lparr>i_correlation = Fin 1, i_estimated_impact = PInf\<rparr>)]"
proof -
  let ?m = "request ''a'' ''Set to Value'' 5"
  let ?a = "FloatCol [Some (- 1), Some 0, Some 1]"
  have a: "0 < length (heap (start zero_mean_frame))" by (simp add: start_def)
  have b: "distinct (map fst (heap (start zero_mean_frame) ! 0))"
    by (simp add: start_def zero_mean_frame_def)
  have c: "map_of (heap (start zero_mean_frame) ! 0) (m_column ?m) = Some ?a"
    by (simp add: start_def zero_mean_frame_def request_def)
  have d: "is_numeric_dtype ?a" by simp
  have e: "apply_change (heap (start zero_mean_frame) ! 0) (m_column ?m) (m_change_type ?m) (m_value ?m) ?a
      = Some (broadcast (heap (start zero_mean_frame) ! 0) 5, SetTo ''a'' 5)"
    by (simp add: apply_change_def request_def)
  have mn: "mean (num_values ?a) = Fin 0" by (simp add: mean_def)
  have imp: "expected_impacts zero_mean_frame ''a'' ''Set to Value'' 5 ?a
      = [(''b'', \<lparr>i_correlation = Fin 1, i_estimated_impact = PInf\<rparr>)]"
    by (simp add: expected_impacts_def zero_mean_frame_def select_dtypes_def number_def
        material_def impact_of_def corr_zero_mean_b fgt_def estimate_impact_def series_stats_def
        mean_def fsub_def signed_inf_def)
  show ?thesis
    unfolding run_what_if_closed[OF a b c d e]
    using mn imp by (simp add: answers_def expected_report_def start_def request_def)
qed
























end
